theory Spec2Isabelle
  imports Complex_Main "HOL-Library.Sublist"
begin

section \<open>Adaptive compression to a target size: \<open>video_adaptive_compress.py\<close>\<close>

text \<open>
  The development embeds \<open>adaptive_compress_video\<close> and its helpers. Python floats are
  modelled by exact rationals (\<^typ>\<open>rat\<close>): comparisons are the program's, arithmetic is
  carried out without IEEE rounding. Python's unbounded integers are \<^typ>\<open>int\<close>.
\<close>

subsection \<open>Candidate ladders\<close>

text \<open>\<open>input_fps = p.video_fps or 30.0\<close>: an absent or zero rate falls back to 30.\<close>

definition input_fps_of :: "rat option \<Rightarrow> rat" where
  "input_fps_of v = (case v of None \<Rightarrow> 30 | Some x \<Rightarrow> if x = 0 then 30 else x)"

text \<open>\<open>input_h = p.video_height or 0\<close>.\<close>

definition input_h_of :: "int option \<Rightarrow> int" where
  "input_h_of v = (case v of None \<Rightarrow> 0 | Some x \<Rightarrow> x)"

text \<open>The body of \<open>for f in [24.0, 15.0, 12.0, float(min_fps)]\<close>, candidates accumulated.\<close>

fun fps_loop :: "rat \<Rightarrow> rat list \<Rightarrow> rat option list \<Rightarrow> rat option list" where
  "fps_loop input_fps [] cands = cands"
| "fps_loop input_fps (f # fs) cands =
     fps_loop input_fps fs
       (if f < input_fps \<and> Some f \<notin> set cands then cands @ [Some f] else cands)"

definition fps_candidates :: "rat \<Rightarrow> rat \<Rightarrow> rat option list" where
  "fps_candidates input_fps min_fps =
     (let cands = fps_loop input_fps [24, 15, 12, min_fps] [None]
      in if min_fps < input_fps \<and> Some min_fps \<notin> set cands
         then cands @ [Some min_fps] else cands)"

text \<open>The body of \<open>for h in [2160, 1440, 1080, 720, int(min_height)]\<close>.\<close>

fun height_loop :: "int \<Rightarrow> int \<Rightarrow> int list \<Rightarrow> int option list \<Rightarrow> int option list" where
  "height_loop input_h min_height [] cands = cands"
| "height_loop input_h min_height (h # hs) cands =
     height_loop input_h min_height hs
       (if input_h \<noteq> 0 \<and> h < input_h \<and> h \<ge> min_height \<and> Some h \<notin> set cands
        then cands @ [Some h] else cands)"

definition height_candidates :: "int \<Rightarrow> int \<Rightarrow> int option list" where
  "height_candidates input_h min_height =
     (let cands = height_loop input_h min_height [2160, 1440, 1080, 720, min_height] [None]
      in if input_h \<noteq> 0 \<and> min_height < input_h \<and> Some min_height \<notin> set cands
         then cands @ [Some min_height] else cands)"

text \<open>
  The ladders as the specification words them: the fixed list, filtered, each value kept
  at its first occurrence, behind the leading keep entry.
\<close>

primrec dedup_first :: "'a list \<Rightarrow> 'a list" where
  "dedup_first [] = []"
| "dedup_first (x # xs) = x # filter (\<lambda>y. y \<noteq> x) (dedup_first xs)"

definition spec_fps_candidates :: "rat \<Rightarrow> rat \<Rightarrow> rat option list" where
  "spec_fps_candidates F Fmin =
     None # map Some (dedup_first (filter (\<lambda>f. f < F) [24, 15, 12, Fmin]))"

definition spec_height_candidates :: "int option \<Rightarrow> int \<Rightarrow> int option list" where
  "spec_height_candidates H Hmin =
     (case H of
        None \<Rightarrow> [None]
      | Some h0 \<Rightarrow>
          None # map Some (dedup_first (filter (\<lambda>h. h < h0 \<and> Hmin \<le> h) [2160, 1440, 1080, 720, Hmin])))"

subsection \<open>Strings and numbers of the host language\<close>

text \<open>Characters are compared through their codes; strings are ASCII.\<close>

definition is_digit :: "char \<Rightarrow> bool" where
  "is_digit c = (48 \<le> (of_char c :: int) \<and> (of_char c :: int) \<le> 57)"

definition digit_val :: "char \<Rightarrow> int" where
  "digit_val c = (of_char c :: int) - 48"

definition digit_char :: "int \<Rightarrow> char" where
  "digit_char d = char_of (48 + d)"

definition is_space :: "char \<Rightarrow> bool" where
  "is_space c = ((of_char c :: int) \<in> {9, 10, 11, 12, 13, 28, 29, 30, 31, 32})"

definition lower_char :: "char \<Rightarrow> char" where
  "lower_char c =
     (if 65 \<le> (of_char c :: int) \<and> (of_char c :: int) \<le> 90
      then char_of ((of_char c :: int) + 32) else c)"

definition lower_str :: "string \<Rightarrow> string" where
  "lower_str s = map lower_char s"

definition strip :: "string \<Rightarrow> string" where
  "strip s = rev (dropWhile is_space (rev (dropWhile is_space s)))"

definition endswith :: "string \<Rightarrow> string \<Rightarrow> bool" where
  "endswith s t = (length t \<le> length s \<and> drop (length s - length t) s = t)"

text \<open>\<open>str(n)\<close> and the \<open>{n}\<close> of an f-string, for an integer.\<close>

function decimal :: "int \<Rightarrow> string" where
  "decimal n = (if n < 10 then [digit_char n] else decimal (n div 10) @ [digit_char (n mod 10)])"
  by pat_completeness auto
termination
  by (relation "measure nat") auto

declare decimal.simps [simp del]

definition str_int :: "int \<Rightarrow> string" where
  "str_int i = (if i < 0 then CHR ''-'' # decimal (- i) else decimal i)"

text \<open>\<open>int(x)\<close> for a float \<open>x\<close>: truncation towards zero.\<close>

definition py_trunc :: "rat \<Rightarrow> int" where
  "py_trunc x = (if x < 0 then - \<lfloor>- x\<rfloor> else \<lfloor>x\<rfloor>)"

text \<open>
  The numeric literals accepted by \<open>int(str)\<close> and \<open>float(str)\<close>: surrounding
  white space, a sign, digit groups that single underscores may separate, and for floats a
  fraction and a decimal exponent. \<open>digit_run\<close> reads the longest digit group at the head
  of a string and returns its digits and the rest.
\<close>

fun digit_run :: "string \<Rightarrow> string \<times> string" where
  "digit_run [] = ([], [])"
| "digit_run [c] = (if is_digit c then ([c], []) else ([], [c]))"
| "digit_run (c # u # cs) =
     (if \<not> is_digit c then ([], c # u # cs)
      else if is_digit u then (case digit_run (u # cs) of (ds, r) \<Rightarrow> (c # ds, r))
      else if u = CHR ''_'' then
        (case digit_run cs of (ds, r) \<Rightarrow> if ds = [] then ([c], u # cs) else (c # ds, r))
      else ([c], u # cs))"

definition dec_value :: "string \<Rightarrow> int" where
  "dec_value ds = foldl (\<lambda>n c. 10 * n + digit_val c) 0 ds"

definition split_sign :: "string \<Rightarrow> int \<times> string" where
  "split_sign s =
     (case s of
        [] \<Rightarrow> (1, [])
      | c # cs \<Rightarrow> if c = CHR ''-'' then (- 1, cs) else if c = CHR ''+'' then (1, cs) else (1, s))"

text \<open>\<open>int(s)\<close> in base ten; \<open>None\<close> is the \<open>ValueError\<close>.\<close>

definition py_int :: "string \<Rightarrow> int option" where
  "py_int s =
     (case split_sign (strip s) of (sg, u) \<Rightarrow>
        (case digit_run u of (ds, r) \<Rightarrow>
           if ds \<noteq> [] \<and> r = [] then Some (sg * dec_value ds) else None))"

text \<open>
  \<open>float(s)\<close>. \<open>None\<close> is the \<open>ValueError\<close> and also stands for the literals
  \<open>inf\<close>, \<open>infinity\<close> and \<open>nan\<close>: every use below converts the product of the
  float with \<open>int(...)\<close> inside the same \<open>try\<close>, and that conversion raises on them.
\<close>

definition exponent_of :: "string \<Rightarrow> int option" where
  "exponent_of r =
     (case r of
        [] \<Rightarrow> Some 0
      | e # r' \<Rightarrow>
          if e = CHR ''e'' \<or> e = CHR ''E'' then
            (case split_sign r' of (sg, u) \<Rightarrow>
               (case digit_run u of (ds, r'') \<Rightarrow>
                  if ds \<noteq> [] \<and> r'' = [] then Some (sg * dec_value ds) else None))
          else None)"

definition pow10 :: "int \<Rightarrow> rat" where
  "pow10 k = (if k < 0 then 1 / 10 ^ nat (- k) else 10 ^ nat k)"

definition py_float :: "string \<Rightarrow> rat option" where
  "py_float s =
     (case split_sign (strip s) of (sg, u) \<Rightarrow>
        (case digit_run u of (ip, r1) \<Rightarrow>
           (case (case r1 of
                    [] \<Rightarrow> ([], r1, False)
                  | d # r \<Rightarrow> if d = CHR ''.'' then (case digit_run r of (fp, r2) \<Rightarrow> (fp, r2, True))
                            else ([], r1, False)) of
              (fp, r2, dot) \<Rightarrow>
                if ip = [] \<and> fp = [] then None
                else (case exponent_of r2 of
                        None \<Rightarrow> None
                      | Some k \<Rightarrow>
                          Some (of_int sg
                                * (of_int (dec_value ip) + of_int (dec_value fp) / 10 ^ length fp)
                                * pow10 k)))))"

subsection \<open>Bitrate derivation of the third stage\<close>

text \<open>\<open>total_bps = int(target_bytes * 8 / max(0.1, duration))\<close>.\<close>

definition total_bps :: "int \<Rightarrow> rat \<Rightarrow> int" where
  "total_bps target duration = py_trunc (of_int (target * 8) / max (1 / 10) duration)"

text \<open>The \<open>try\<close> block that parses the audio bitrate; any exception leaves 128000.\<close>

definition a_bps_of :: "string \<Rightarrow> int" where
  "a_bps_of ab =
     (case (if endswith (lower_str ab) ''k''
            then map_option (\<lambda>x. py_trunc (x * 1000)) (py_float (butlast ab))
            else if endswith (lower_str ab) ''m''
            then map_option (\<lambda>x. py_trunc (x * 1000000)) (py_float (butlast ab))
            else py_int ab) of
        Some n \<Rightarrow> n
      | None \<Rightarrow> 128000)"

text \<open>\<open>target_video_bps = max(200_000, int(total_bps * 0.95) - a_bps)\<close>.\<close>

definition target_video_bps :: "int \<Rightarrow> rat \<Rightarrow> string \<Rightarrow> int" where
  "target_video_bps target duration ab =
     max 200000 (py_trunc (of_int (total_bps target duration) * (95 / 100)) - a_bps_of ab)"

text \<open>\<open>v_bitrate = f"{int(target_video_bps/1000)}k"\<close>.\<close>

definition v_bitrate_of :: "int \<Rightarrow> string" where
  "v_bitrate_of v = str_int (py_trunc (of_int v / 1000)) @ ''k''"

subsection \<open>Data of the search\<close>

datatype exn = ValueError string | OSError string

record Attempt =
  fps :: "rat option"
  height :: "int option"
  video_codec :: string
  crf :: "int option"
  video_bitrate :: "string option"
  audio_bitrate :: string
  output_bytes :: int

text \<open>The fields of \<open>ProbeResult\<close> that the search reads.\<close>

record ProbeResult =
  duration_s :: rat
  has_video :: bool
  video_height :: "int option"
  video_fps :: "rat option"

text \<open>The arguments of \<open>adaptive_compress_video\<close>, each under its name with \<open>arg_\<close> in front.\<close>

record request =
  arg_input_path :: string
  arg_output :: string
  arg_target_bytes :: "int option"
  arg_target_mb :: "rat option"
  arg_video_codec :: string
  arg_crf :: int
  arg_preset :: string
  arg_pix_fmt :: string
  arg_audio_codec :: string
  arg_audio_bitrate :: string
  arg_min_fps :: rat
  arg_min_height :: int
  arg_timeout_s :: int

text \<open>
  The dictionary that \<open>adaptive_compress_video\<close> returns; its key \<open>output\<close> is the
  field \<open>output_dst\<close>.
\<close>

record outcome =
  input_path :: string
  output_dst :: string
  local_path :: "string option"
  s3_url :: "string option"
  target_bytes :: int
  actual_bytes :: int
  strategy :: string
  success :: bool
  attempts :: "Attempt list"

subsection \<open>The outside world\<close>

text \<open>
  What \<open>subprocess.run(cmd, check=True, timeout=...)\<close> can do: finish with exit status 0,
  leaving an output file of some size, run out of time, exit with another status, or fail
  to start.
\<close>

datatype proc_result =
  Completed int | TimeoutExpired | CalledProcessError string | SpawnFailed string

text \<open>Every call that leaves the process is written to a log, in the order made.\<close>

datatype event =
  VerifyTools
| PrepareInput
| ProbeVideo
| FfmpegRun "string list" int proc_result
| StoreOutput int

text \<open>\<open>scratch\<close> is the size of the file at \<open>temp_out\<close>, when there is one.\<close>

record world =
  events :: "event list"
  scratch :: "int option"

text \<open>
  The collaborators: tool discovery and verification, input preparation, the prober, the
  encoder process (its answer may depend on everything that happened before), the scratch
  path, the scheme test of the output and the promotion of the output.
\<close>

record env =
  find_ffmpeg :: string
  verify_ffmpeg_tools :: "exn option"
  prepared_input :: "exn + string"
  probe_video :: "exn + ProbeResult"
  temp_path :: string
  is_s3_url :: "string \<Rightarrow> bool"
  subprocess_run :: "event list \<Rightarrow> string list \<Rightarrow> int \<Rightarrow> proc_result"
  output_failure :: "exn option"

text \<open>The variables that the nested helpers close over.\<close>

record ctx =
  args :: request
  ffmpeg_path :: string
  local_in :: string
  temp_out :: string
  target :: int
  preferred_codec :: string
  fallback_codec :: "string option"

definition log_event :: "event \<Rightarrow> world \<Rightarrow> world" where
  "log_event e w = w\<lparr>events := events w @ [e]\<rparr>"

subsection \<open>One encoder invocation\<close>

definition run_ffmpeg :: "env \<Rightarrow> string list \<Rightarrow> int \<Rightarrow> world \<Rightarrow> (exn + unit) \<times> world" where
  "run_ffmpeg env cmd timeout w =
     (let r = subprocess_run env (events w) cmd timeout;
          w' = \<lparr>events = events w @ [FfmpegRun cmd timeout r],
                scratch = (case r of Completed n \<Rightarrow> Some n | _ \<Rightarrow> None)\<rparr>
      in case r of
           Completed n \<Rightarrow> (Inr (), w')
         | TimeoutExpired \<Rightarrow> (Inl (ValueError ''ffmpeg execution timeout''), w')
         | CalledProcessError err \<Rightarrow> (Inl (ValueError (''ffmpeg execution failed: '' @ err)), w')
         | SpawnFailed msg \<Rightarrow> (Inl (OSError msg), w'))"

text \<open>The format \<open>:.6f\<close> of a float.\<close>

definition round_half_even :: "rat \<Rightarrow> int" where
  "round_half_even x =
     (let f = \<lfloor>x\<rfloor>; d = x - of_int f
      in if d < 1 / 2 then f else if 1 / 2 < d then f + 1 else if even f then f else f + 1)"

definition fmt_6f :: "rat \<Rightarrow> string" where
  "fmt_6f x =
     (let n = round_half_even (\<bar>x\<bar> * 1000000);
          frac = decimal (n mod 1000000)
      in (if x < 0 then ''-'' else []) @ decimal (n div 1000000) @ ''.''
         @ replicate (6 - length frac) (CHR ''0'') @ frac)"

fun join :: "string \<Rightarrow> string list \<Rightarrow> string" where
  "join sep [] = []"
| "join sep [x] = x"
| "join sep (x # y # ys) = x @ sep @ join sep (y # ys)"

text \<open>Truthiness of an optional string.\<close>

definition truthy :: "string option \<Rightarrow> bool" where
  "truthy v = (case v of None \<Rightarrow> False | Some s \<Rightarrow> s \<noteq> [])"

text \<open>The rate-control flags: a bitrate when one is given, the CRF otherwise.\<close>

definition rate_control_args :: "string option \<Rightarrow> int option \<Rightarrow> exn + string list" where
  "rate_control_args vb c =
     (case vb of
        Some b \<Rightarrow>
          if b \<noteq> [] then Inr [''-b:v'', b, ''-maxrate'', b, ''-bufsize'', b]
          else (case c of
                  None \<Rightarrow> Inl (ValueError ''crf must be provided when video_bitrate is not set'')
                | Some q \<Rightarrow> Inr [''-crf'', str_int q])
      | None \<Rightarrow>
          (case c of
             None \<Rightarrow> Inl (ValueError ''crf must be provided when video_bitrate is not set'')
           | Some q \<Rightarrow> Inr [''-crf'', str_int q]))"

definition encode_cmd ::
  "string \<Rightarrow> string \<Rightarrow> string \<Rightarrow> string \<Rightarrow> rat option \<Rightarrow> int option \<Rightarrow> int option
   \<Rightarrow> string option \<Rightarrow> string \<Rightarrow> string \<Rightarrow> string \<Rightarrow> string \<Rightarrow> exn + string list" where
  "encode_cmd ffmpeg inp outp vcodec f h c vb pre pix acodec ab =
     (let filters = (case f of None \<Rightarrow> [] | Some x \<Rightarrow> [''fps=fps='' @ fmt_6f x])
                    @ (case h of None \<Rightarrow> [] | Some y \<Rightarrow> [''scale=-2:'' @ str_int y]);
          cmd0 = [ffmpeg, ''-hide_banner'', ''-loglevel'', ''error'', ''-i'', inp,
                  ''-map'', ''0:v:0'', ''-map'', ''0:a:0?'']
                 @ (if filters \<noteq> [] then [''-vf'', join '','' filters] else [])
                 @ [''-c:v'', vcodec]
      in case rate_control_args vb c of
           Inl e \<Rightarrow> Inl e
         | Inr rc \<Rightarrow>
             Inr (cmd0 @ rc
                  @ (if pre \<noteq> [] then [''-preset'', pre] else [])
                  @ (if pix \<noteq> [] then [''-pix_fmt'', pix] else [])
                  @ [''-c:a'', acodec, ''-b:a'', ab]
                  @ [''-movflags'', ''+faststart'', ''-y'', outp]))"

definition encode_once ::
  "env \<Rightarrow> string \<Rightarrow> string \<Rightarrow> string \<Rightarrow> string \<Rightarrow> rat option \<Rightarrow> int option \<Rightarrow> int option
   \<Rightarrow> string option \<Rightarrow> string \<Rightarrow> string \<Rightarrow> string \<Rightarrow> string \<Rightarrow> int \<Rightarrow> world
   \<Rightarrow> (exn + unit) \<times> world" where
  "encode_once env ffmpeg inp outp vcodec f h c vb pre pix acodec ab timeout w =
     (case encode_cmd ffmpeg inp outp vcodec f h c vb pre pix acodec ab of
        Inl e \<Rightarrow> (Inl e, w)
      | Inr cmd \<Rightarrow> run_ffmpeg env cmd timeout w)"

text \<open>\<open>try_encode\<close>: encode, then read the size of the file just written.\<close>

definition try_encode ::
  "env \<Rightarrow> ctx \<Rightarrow> rat option \<Rightarrow> int option \<Rightarrow> string \<Rightarrow> int option \<Rightarrow> string option \<Rightarrow> string
   \<Rightarrow> world \<Rightarrow> (exn + int) \<times> world" where
  "try_encode env c fps_value height_value chosen_codec crf_value v_bitrate a_bitrate w =
     (case encode_once env (ffmpeg_path c) (local_in c) (temp_out c) chosen_codec
             fps_value height_value crf_value v_bitrate
             (arg_preset (args c)) (arg_pix_fmt (args c)) (arg_audio_codec (args c))
             a_bitrate (arg_timeout_s (args c)) w of
        (Inl e, w') \<Rightarrow> (Inl e, w')
      | (Inr u, w') \<Rightarrow>
          (case scratch w' of
             None \<Rightarrow> (Inl (OSError ''getsize''), w')
           | Some n \<Rightarrow> (Inr n, w')))"

text \<open>
  \<open>encode_with_codec_fallback\<close>: the preferred codec first; on a \<open>ValueError\<close>, and
  with a fallback codec configured, the same parameters once more with the fallback.
\<close>

definition encode_with_codec_fallback ::
  "env \<Rightarrow> ctx \<Rightarrow> rat option \<Rightarrow> int option \<Rightarrow> int option \<Rightarrow> string option \<Rightarrow> string
   \<Rightarrow> world \<Rightarrow> (exn + string \<times> int) \<times> world" where
  "encode_with_codec_fallback env c fps_value height_value crf_value v_bitrate a_bitrate w =
     (case try_encode env c fps_value height_value (preferred_codec c) crf_value v_bitrate
             a_bitrate w of
        (Inr sz, w') \<Rightarrow> (Inr (preferred_codec c, sz), w')
      | (Inl (OSError m), w') \<Rightarrow> (Inl (OSError m), w')
      | (Inl (ValueError m), w') \<Rightarrow>
          (case fallback_codec c of
             None \<Rightarrow> (Inl (ValueError m), w')
           | Some fb \<Rightarrow>
               if fb = [] then (Inl (ValueError m), w')
               else
                 (case try_encode env c fps_value height_value fb crf_value v_bitrate
                         a_bitrate w' of
                    (Inr sz, w'') \<Rightarrow> (Inr (fb, sz), w'')
                  | (Inl e, w'') \<Rightarrow> (Inl e, w''))))"

subsection \<open>The three stages\<close>

text \<open>
  \<open>with outputs.PreparedOutput(output, ...) as out: os.replace(temp_out, out.local_path)\<close>:
  an empty destination is refused, otherwise the scratch file moves to the destination
  unless the file system or the upload fails.
\<close>

definition store_output :: "env \<Rightarrow> ctx \<Rightarrow> world \<Rightarrow> (exn + unit) \<times> world" where
  "store_output env c w =
     (if arg_output (args c) = [] then (Inl (ValueError ''output must be provided''), w)
      else
        (case scratch w of
           None \<Rightarrow> (Inl (OSError ''replace''), w)
         | Some n \<Rightarrow>
             (case output_failure env of
                Some e \<Rightarrow> (Inl e, w)
              | None \<Rightarrow> (Inr (), \<lparr>events = events w @ [StoreOutput n], scratch = None\<rparr>))))"

definition result_dict :: "env \<Rightarrow> ctx \<Rightarrow> int \<Rightarrow> string \<Rightarrow> bool \<Rightarrow> Attempt list \<Rightarrow> outcome" where
  "result_dict env c sz strat ok atts =
     \<lparr>input_path = arg_input_path (args c),
      output_dst = arg_output (args c),
      local_path = (if is_s3_url env (arg_output (args c)) then None else Some (arg_output (args c))),
      s3_url = (if is_s3_url env (arg_output (args c)) then Some (arg_output (args c)) else None),
      target_bytes = target c,
      actual_bytes = sz,
      strategy = strat,
      success = ok,
      attempts = atts\<rparr>"

text \<open>
  A stage either returns the final dictionary or falls through to the next stage with the
  attempts made so far and the last candidate it tried.
\<close>

datatype 'a stage = Returned outcome | Fallthrough "Attempt list" "'a option"

text \<open>Stage 1, \<open>for f in fps_candidates\<close>.\<close>

fun stage1 ::
  "env \<Rightarrow> ctx \<Rightarrow> rat option list \<Rightarrow> Attempt list \<Rightarrow> rat option \<Rightarrow> world
   \<Rightarrow> (exn + rat stage) \<times> world" where
  "stage1 env c [] atts last_fps w = (Inr (Fallthrough atts last_fps), w)"
| "stage1 env c (f # fs) atts last_fps w =
     (case encode_with_codec_fallback env c f None (Some (arg_crf (args c))) None
             (arg_audio_bitrate (args c)) w of
        (Inl e, w') \<Rightarrow> (Inl e, w')
      | (Inr (codec_used, sz), w') \<Rightarrow>
          (let atts' = atts @ [\<lparr>fps = f, height = None, video_codec = codec_used,
                                crf = Some (arg_crf (args c)), video_bitrate = None,
                                audio_bitrate = arg_audio_bitrate (args c),
                                output_bytes = sz\<rparr>]
           in if sz \<le> target c then
                (case store_output env c w' of
                   (Inl e, w'') \<Rightarrow> (Inl e, w'')
                 | (Inr u, w'') \<Rightarrow> (Inr (Returned (result_dict env c sz ''fps'' True atts')), w''))
              else stage1 env c fs atts' f w'))"

text \<open>Stage 2, \<open>for h in height_candidates[1:]\<close>, at the frame rate stage 1 ended with.\<close>

fun stage2 ::
  "env \<Rightarrow> ctx \<Rightarrow> rat option \<Rightarrow> int option list \<Rightarrow> Attempt list \<Rightarrow> int option \<Rightarrow> world
   \<Rightarrow> (exn + int stage) \<times> world" where
  "stage2 env c last_fps [] atts last_height w = (Inr (Fallthrough atts last_height), w)"
| "stage2 env c last_fps (h # hs) atts last_height w =
     (case encode_with_codec_fallback env c last_fps h (Some (arg_crf (args c))) None
             (arg_audio_bitrate (args c)) w of
        (Inl e, w') \<Rightarrow> (Inl e, w')
      | (Inr (codec_used, sz), w') \<Rightarrow>
          (let atts' = atts @ [\<lparr>fps = last_fps, height = h, video_codec = codec_used,
                                crf = Some (arg_crf (args c)), video_bitrate = None,
                                audio_bitrate = arg_audio_bitrate (args c),
                                output_bytes = sz\<rparr>]
           in if sz \<le> target c then
                (case store_output env c w' of
                   (Inl e, w'') \<Rightarrow> (Inl e, w'')
                 | (Inr u, w'') \<Rightarrow>
                     (Inr (Returned (result_dict env c sz ''fps+scale'' True atts')), w''))
              else stage2 env c last_fps hs atts' h w'))"

text \<open>The frame rate and the height that stage 3 hands to the encoder.\<close>

definition stage3_fps :: "rat option \<Rightarrow> rat \<Rightarrow> rat option" where
  "stage3_fps last_fps min_fps = (case last_fps of Some f \<Rightarrow> Some f | None \<Rightarrow> Some min_fps)"

definition stage3_height :: "int option \<Rightarrow> int \<Rightarrow> int \<Rightarrow> int option" where
  "stage3_height last_height input_h min_height =
     (case last_height of
        Some h \<Rightarrow> Some h
      | None \<Rightarrow> if input_h \<noteq> 0 \<and> input_h > min_height then Some min_height else None)"

definition stage3 ::
  "env \<Rightarrow> ctx \<Rightarrow> ProbeResult \<Rightarrow> int \<Rightarrow> Attempt list \<Rightarrow> rat option \<Rightarrow> int option \<Rightarrow> world
   \<Rightarrow> (exn + outcome) \<times> world" where
  "stage3 env c p input_h atts last_fps last_height w =
     (let v_bitrate = v_bitrate_of
            (target_video_bps (target c) (duration_s p) (arg_audio_bitrate (args c)))
      in case encode_with_codec_fallback env c
                (stage3_fps last_fps (arg_min_fps (args c)))
                (stage3_height last_height input_h (arg_min_height (args c)))
                None (Some v_bitrate) (arg_audio_bitrate (args c)) w of
           (Inl e, w') \<Rightarrow> (Inl e, w')
         | (Inr (codec_used, sz), w') \<Rightarrow>
             (let atts' = atts @ [\<lparr>fps = stage3_fps last_fps (arg_min_fps (args c)),
                                   height = last_height, video_codec = codec_used,
                                   crf = None, video_bitrate = Some v_bitrate,
                                   audio_bitrate = arg_audio_bitrate (args c),
                                   output_bytes = sz\<rparr>]
              in case store_output env c w' of
                   (Inl e, w'') \<Rightarrow> (Inl e, w'')
                 | (Inr u, w'') \<Rightarrow>
                     (Inr (result_dict env c sz ''fps+scale+bitrate'' (sz \<le> target c) atts'),
                      w'')))"

text \<open>The body of \<open>adaptive_compress_video\<close> from the probe result on.\<close>

definition search :: "env \<Rightarrow> ctx \<Rightarrow> ProbeResult \<Rightarrow> world \<Rightarrow> (exn + outcome) \<times> world" where
  "search env c p w =
     (let input_fps = input_fps_of (video_fps p);
          input_h = input_h_of (video_height p);
          fcs = fps_candidates input_fps (arg_min_fps (args c));
          hcs = height_candidates input_h (arg_min_height (args c))
      in case stage1 env c fcs [] None w of
           (Inl e, w1) \<Rightarrow> (Inl e, w1)
         | (Inr (Returned out), w1) \<Rightarrow> (Inr out, w1)
         | (Inr (Fallthrough atts1 last_fps), w1) \<Rightarrow>
             (case stage2 env c last_fps (drop 1 hcs) atts1 None w1 of
                (Inl e, w2) \<Rightarrow> (Inl e, w2)
              | (Inr (Returned out), w2) \<Rightarrow> (Inr out, w2)
              | (Inr (Fallthrough atts2 last_height), w2) \<Rightarrow>
                  stage3 env c p input_h atts2 last_fps last_height w2))"

subsection \<open>Validation and the whole operation\<close>

definition validate :: "request \<Rightarrow> exn + int" where
  "validate a =
     (case (case (arg_target_bytes a, arg_target_mb a) of
              (None, None) \<Rightarrow> Inl (ValueError ''Provide exactly one of target_bytes or target_mb'')
            | (Some tb, Some mb) \<Rightarrow>
                Inl (ValueError ''Provide exactly one of target_bytes or target_mb'')
            | (None, Some mb) \<Rightarrow>
                if mb \<le> 0 then Inl (ValueError ''target_mb must be positive'')
                else Inr (py_trunc (mb * 1024 * 1024))
            | (Some tb, None) \<Rightarrow> Inr tb) of
        Inl e \<Rightarrow> Inl e
      | Inr tb \<Rightarrow>
          if tb \<le> 0 then Inl (ValueError ''target_bytes must be positive'')
          else if arg_min_fps a \<le> 0 then Inl (ValueError ''min_fps must be positive'')
          else if arg_min_height a \<le> 0 then Inl (ValueError ''min_height must be positive'')
          else if arg_timeout_s a \<le> 0 then Inl (ValueError ''timeout_s must be positive'')
          else Inr tb)"

definition pick_codec :: "string \<Rightarrow> exn + string \<times> string option" where
  "pick_codec auto_codec =
     (let ac = lower_str (strip (if auto_codec = [] then ''auto'' else auto_codec))
      in if ac = ''auto'' then Inr (''libx265'', Some ''libx264'')
         else if ac = ''libx265'' \<or> ac = ''libx264'' then Inr (ac, None)
         else Inl (ValueError ''video_codec must be one of: auto, libx265, libx264''))"

definition start :: world where
  "start = \<lparr>events = [], scratch = None\<rparr>"

definition adaptive_compress_video :: "env \<Rightarrow> request \<Rightarrow> (exn + outcome) \<times> world" where
  "adaptive_compress_video env a =
     (case validate a of
        Inl e \<Rightarrow> (Inl e, start)
      | Inr tb \<Rightarrow>
          (let w1 = log_event VerifyTools start
           in case verify_ffmpeg_tools env of
                Some e \<Rightarrow> (Inl e, w1)
              | None \<Rightarrow>
                  (case pick_codec (arg_video_codec a) of
                     Inl e \<Rightarrow> (Inl e, w1)
                   | Inr (preferred, fallback) \<Rightarrow>
                       (let w2 = log_event PrepareInput w1
                        in case prepared_input env of
                             Inl e \<Rightarrow> (Inl e, w2)
                           | Inr local \<Rightarrow>
                               (let w3 = log_event ProbeVideo w2
                                in case probe_video env of
                                     Inl e \<Rightarrow> (Inl e, w3)
                                   | Inr p \<Rightarrow>
                                       if \<not> has_video p
                                       then (Inl (ValueError ''Input has no video stream''), w3)
                                       else if duration_s p \<le> 0
                                       then (Inl (ValueError ''Failed to determine input duration''), w3)
                                       else search env
                                              \<lparr>args = a, ffmpeg_path = find_ffmpeg env,
                                               local_in = local, temp_out = temp_path env,
                                               target = tb, preferred_codec = preferred,
                                               fallback_codec = fallback\<rparr> p w3)))))"

subsection \<open>Observations used to state the properties\<close>

text \<open>The encoder command line built for a call made from inside the search.\<close>

definition ctx_cmd ::
  "ctx \<Rightarrow> string \<Rightarrow> rat option \<Rightarrow> int option \<Rightarrow> int option \<Rightarrow> string option \<Rightarrow> string
   \<Rightarrow> exn + string list" where
  "ctx_cmd c codec f h q vb ab =
     encode_cmd (ffmpeg_path c) (local_in c) (temp_out c) codec f h q vb
       (arg_preset (args c)) (arg_pix_fmt (args c)) (arg_audio_codec (args c)) ab"

text \<open>The call that an attempt-log entry describes, with the size it reports.\<close>

definition attempt_call :: "ctx \<Rightarrow> Attempt \<Rightarrow> (exn + string list) \<times> int" where
  "attempt_call c a =
     (ctx_cmd c (video_codec a) (fps a) (height a) (crf a) (video_bitrate a) (audio_bitrate a),
      output_bytes a)"

text \<open>The encoder runs of a log that finished, each with the size of the file it left.\<close>

fun run_log :: "event list \<Rightarrow> ((exn + string list) \<times> int) list" where
  "run_log [] = []"
| "run_log (FfmpegRun cmd t (Completed n) # es) = (Inr cmd, n) # run_log es"
| "run_log (e # es) = run_log es"

text \<open>All encoder runs of a log, finished or not.\<close>

fun ffmpeg_runs :: "event list \<Rightarrow> (string list \<times> proc_result) list" where
  "ffmpeg_runs [] = []"
| "ffmpeg_runs (FfmpegRun cmd t r # es) = (cmd, r) # ffmpeg_runs es"
| "ffmpeg_runs (e # es) = ffmpeg_runs es"

text \<open>The exception that \<open>_run_ffmpeg\<close> raises for a run that did not finish.\<close>

definition raised :: "proc_result \<Rightarrow> exn option" where
  "raised r =
     (case r of
        Completed n \<Rightarrow> None
      | TimeoutExpired \<Rightarrow> Some (ValueError ''ffmpeg execution timeout'')
      | CalledProcessError err \<Rightarrow> Some (ValueError (''ffmpeg execution failed: '' @ err))
      | SpawnFailed msg \<Rightarrow> Some (OSError msg))"


text \<open>The log entry of a CRF attempt and of the bitrate attempt.\<close>

definition crf_attempt :: "ctx \<Rightarrow> rat option \<Rightarrow> int option \<Rightarrow> string \<Rightarrow> int \<Rightarrow> Attempt" where
  "crf_attempt c f h codec sz =
     \<lparr>fps = f, height = h, video_codec = codec, crf = Some (arg_crf (args c)),
      video_bitrate = None, audio_bitrate = arg_audio_bitrate (args c), output_bytes = sz\<rparr>"

definition bitrate_attempt ::
  "ctx \<Rightarrow> rat option \<Rightarrow> int option \<Rightarrow> string \<Rightarrow> string \<Rightarrow> int \<Rightarrow> Attempt" where
  "bitrate_attempt c f h codec vb sz =
     \<lparr>fps = f, height = h, video_codec = codec, crf = None,
      video_bitrate = Some vb, audio_bitrate = arg_audio_bitrate (args c), output_bytes = sz\<rparr>"

subsection \<open>Example runs\<close>

text \<open>
  An encoder that answers its calls from a script, one answer per call in order, and an
  environment in which everything else succeeds.
\<close>

definition scripted :: "proc_result list \<Rightarrow> event list \<Rightarrow> string list \<Rightarrow> int \<Rightarrow> proc_result" where
  "scripted script evs cmd t =
     (case drop (length (ffmpeg_runs evs)) script of
        [] \<Rightarrow> CalledProcessError []
      | r # rs \<Rightarrow> r)"

definition example_env :: "ProbeResult \<Rightarrow> proc_result list \<Rightarrow> env" where
  "example_env p script =
     \<lparr>find_ffmpeg = ''ffmpeg'', verify_ffmpeg_tools = None, prepared_input = Inr ''in.mp4'',
      probe_video = Inr p, temp_path = ''attempt.mp4'',
      is_s3_url = (\<lambda>s. take 5 s = ''s3://''),
      subprocess_run = scripted script, output_failure = None\<rparr>"

definition example_request :: request where
  "example_request =
     \<lparr>arg_input_path = ''in.mp4'', arg_output = ''out.mp4'', arg_target_bytes = Some 600,
      arg_target_mb = None, arg_video_codec = ''libx264'', arg_crf = 28,
      arg_preset = ''medium'', arg_pix_fmt = ''yuv420p'', arg_audio_codec = ''aac'',
      arg_audio_bitrate = ''128k'', arg_min_fps = 8, arg_min_height = 480,
      arg_timeout_s = 30\<rparr>"

definition example_ctx :: "request \<Rightarrow> string \<Rightarrow> string option \<Rightarrow> ctx" where
  "example_ctx a preferred fallback =
     \<lparr>args = a, ffmpeg_path = ''ffmpeg'', local_in = ''in.mp4'', temp_out = ''attempt.mp4'',
      target = (case arg_target_bytes a of Some b \<Rightarrow> b | None \<Rightarrow> 0),
      preferred_codec = preferred, fallback_codec = fallback\<rparr>"

definition probe_1080p30 :: ProbeResult where
  "probe_1080p30 = \<lparr>duration_s = 10, has_video = True, video_height = Some 1080, video_fps = Some 30\<rparr>"

definition probe_5fps :: ProbeResult where
  "probe_5fps = \<lparr>duration_s = 10, has_video = True, video_height = None, video_fps = Some 5\<rparr>"

text \<open>Readers for the result of a stage that fell through.\<close>

definition fell_through :: "(exn + 'a stage) \<times> world \<Rightarrow> bool" where
  "fell_through x = (case fst x of Inr (Fallthrough a l) \<Rightarrow> True | Inr (Returned out) \<Rightarrow> False | Inl e \<Rightarrow> False)"

definition carried :: "(exn + 'a stage) \<times> world \<Rightarrow> Attempt list" where
  "carried x = (case fst x of Inr (Fallthrough a l) \<Rightarrow> a | Inr (Returned out) \<Rightarrow> [] | Inl e \<Rightarrow> [])"

definition last_tried :: "(exn + 'a stage) \<times> world \<Rightarrow> 'a option" where
  "last_tried x = (case fst x of Inr (Fallthrough a l) \<Rightarrow> l | Inr (Returned out) \<Rightarrow> None | Inl e \<Rightarrow> None)"

text \<open>
  The parameter pairs (frame rate, height) of the attempts in the order the search would
  make them if no attempt met the budget.
\<close>

definition plan :: "ctx \<Rightarrow> ProbeResult \<Rightarrow> (rat option \<times> int option) list" where
  "plan c p =
     (let fcs = fps_candidates (input_fps_of (video_fps p)) (arg_min_fps (args c));
          hs = drop 1 (height_candidates (input_h_of (video_height p)) (arg_min_height (args c)));
          lf = last (None # fcs)
      in map (\<lambda>f. (f, None)) fcs @ map (\<lambda>h. (lf, h)) hs
         @ [(stage3_fps lf (arg_min_fps (args c)), last (None # hs))])"

section \<open>Properties\<close>

subsection \<open>Candidate ladders\<close>

lemma set_dedup_first: "set (dedup_first xs) = set xs"
  by (induction xs) auto

lemma fps_loop_spec:
  "fps_loop F fs (None # map Some ys)
     = None # map Some (ys @ filter (\<lambda>g. g \<notin> set ys) (dedup_first (filter (\<lambda>f. f < F) fs)))"
proof (induction fs arbitrary: ys)
  case Nil
  show ?case by simp
next
  case (Cons f fs)
  show ?case
  proof (cases "f < F \<and> f \<notin> set ys")
    case True
    then have "fps_loop F (f # fs) (None # map Some ys) = fps_loop F fs (None # map Some (ys @ [f]))"
      by auto
    also have "\<dots> = None # map Some ((ys @ [f]) @ filter (\<lambda>g. g \<notin> set (ys @ [f]))
                        (dedup_first (filter (\<lambda>f. f < F) fs)))"
      by (rule Cons.IH)
    finally show ?thesis using True by (simp add: conj_commute)
  next
    case False
    then have "fps_loop F (f # fs) (None # map Some ys) = fps_loop F fs (None # map Some ys)"
      by auto
    then show ?thesis using False Cons.IH [of ys]
      by (auto intro: filter_cong)
  qed
qed

lemma force_append_noop:
  assumes "c \<Longrightarrow> x \<in> set xs"
  shows "(if c \<and> x \<notin> set xs then xs @ [x] else xs) = xs"
  using assms by auto

lemma force_append_noop2:
  assumes "c1 \<and> c2 \<Longrightarrow> x \<in> set xs"
  shows "(if c1 \<and> c2 \<and> x \<notin> set xs then xs @ [x] else xs) = xs"
  using assms by auto

lemma mem_spec_ladder:
  assumes "P x" and "x \<in> set xs"
  shows "Some x \<in> set (None # map Some (dedup_first (filter P xs)))"
  using assms by (simp add: set_dedup_first del: dedup_first.simps)

lemma fps_candidates_spec: "fps_candidates F Fmin = spec_fps_candidates F Fmin"
proof -
  have loop: "fps_loop F [24, 15, 12, Fmin] [None] = spec_fps_candidates F Fmin"
    using fps_loop_spec [of F "[24, 15, 12, Fmin]" "[]"]
    unfolding spec_fps_candidates_def by (simp del: dedup_first.simps filter.simps)
  have "Fmin < F \<Longrightarrow> Some Fmin \<in> set (spec_fps_candidates F Fmin)"
    unfolding spec_fps_candidates_def by (rule mem_spec_ladder) simp_all
  then show ?thesis
    unfolding fps_candidates_def loop Let_def by (rule force_append_noop)
qed

lemma height_loop_spec:
  "height_loop H Hmin hs (None # map Some ys)
     = None # map Some (ys @ filter (\<lambda>g. g \<notin> set ys)
                              (dedup_first (filter (\<lambda>h. H \<noteq> 0 \<and> h < H \<and> Hmin \<le> h) hs)))"
proof (induction hs arbitrary: ys)
  case Nil
  show ?case by simp
next
  case (Cons h hs)
  show ?case
  proof (cases "(H \<noteq> 0 \<and> h < H \<and> Hmin \<le> h) \<and> h \<notin> set ys")
    case True
    then have "height_loop H Hmin (h # hs) (None # map Some ys)
                 = height_loop H Hmin hs (None # map Some (ys @ [h]))"
      by auto
    also have "\<dots> = None # map Some ((ys @ [h]) @ filter (\<lambda>g. g \<notin> set (ys @ [h]))
                        (dedup_first (filter (\<lambda>h. H \<noteq> 0 \<and> h < H \<and> Hmin \<le> h) hs)))"
      by (rule Cons.IH)
    finally show ?thesis using True by (simp add: conj_commute)
  next
    case False
    then have "height_loop H Hmin (h # hs) (None # map Some ys)
                 = height_loop H Hmin hs (None # map Some ys)"
      by auto
    then show ?thesis using False Cons.IH [of ys]
      by (auto intro: filter_cong)
  qed
qed

lemma height_candidates_known:
  "height_candidates H Hmin
     = None # map Some (dedup_first (filter (\<lambda>h. H \<noteq> 0 \<and> h < H \<and> Hmin \<le> h)
                                      [2160, 1440, 1080, 720, Hmin]))"
proof -
  let ?spec = "None # map Some (dedup_first (filter (\<lambda>h. H \<noteq> 0 \<and> h < H \<and> Hmin \<le> h)
                                      [2160, 1440, 1080, 720, Hmin]))"
  have loop: "height_loop H Hmin [2160, 1440, 1080, 720, Hmin] [None] = ?spec"
    using height_loop_spec [of H Hmin "[2160, 1440, 1080, 720, Hmin]" "[]"]
    by (simp del: dedup_first.simps filter.simps)
  have "H \<noteq> 0 \<and> Hmin < H \<Longrightarrow> Some Hmin \<in> set ?spec"
    by (rule mem_spec_ladder) simp_all
  then show ?thesis
    unfolding height_candidates_def loop Let_def by (rule force_append_noop2)
qed


text \<open>
  C6. For every input frame rate (30 when the probe gives none) and every floor, the
  frame-rate candidates are the keep entry followed by those of 24, 15, 12 and the floor, in
  that order, that lie strictly below the input rate, each value once; the floor is in the
  list whenever it is below the input rate, and it is the last candidate when it is not one
  of 24, 15, 12.
\<close>

theorem fps_candidates_ladder:
  "fps_candidates (input_fps_of v) Fmin = spec_fps_candidates (input_fps_of v) Fmin
   \<and> hd (fps_candidates (input_fps_of v) Fmin) = None
   \<and> (Fmin < input_fps_of v \<longrightarrow> Some Fmin \<in> set (fps_candidates (input_fps_of v) Fmin))
   \<and> (Fmin < input_fps_of v \<and> Fmin \<notin> {24, 15, 12}
        \<longrightarrow> last (fps_candidates (input_fps_of v) Fmin) = Some Fmin)
   \<and> input_fps_of None = 30"
proof -
  let ?F = "input_fps_of v"
  have mem: "Fmin < ?F \<Longrightarrow> Some Fmin \<in> set (spec_fps_candidates ?F Fmin)"
    unfolding spec_fps_candidates_def by (rule mem_spec_ladder) simp_all
  have lst: "Fmin < ?F \<and> Fmin \<notin> {24, 15, 12} \<Longrightarrow> last (spec_fps_candidates ?F Fmin) = Some Fmin"
    by (simp add: spec_fps_candidates_def)
  have hd0: "hd (spec_fps_candidates ?F Fmin) = None"
    by (simp add: spec_fps_candidates_def)
  show ?thesis
    using mem lst hd0 by (simp add: fps_candidates_spec input_fps_of_def)
qed

theorem fps_candidates_ladder_witness:
  "(8::rat) < input_fps_of (Some 30) \<and> (8::rat) \<notin> {24, 15, 12}
   \<and> fps_candidates (input_fps_of (Some 30)) 8 = [None, Some 24, Some 15, Some 12, Some 8]
   \<and> Some 8 \<in> set (fps_candidates (input_fps_of (Some 30)) 8)
   \<and> last (fps_candidates (input_fps_of (Some 30)) 8) = Some 8"
  using fps_candidates_ladder [of "Some 30" 8]
  by (simp add: input_fps_of_def spec_fps_candidates_def)

text \<open>
  C7. For every input height and every positive floor, the resolution candidates are the
  keep entry followed by those of 2160, 1440, 1080, 720 and the floor, in that order, that
  lie strictly below the input height and not below the floor, each value once; the floor is
  in the list whenever it is below the input height. With an unknown height the list is the
  keep entry alone, and stage 2 makes no attempt and touches nothing.
\<close>

theorem height_candidates_ladder:
  assumes "0 < Hmin"
  shows "height_candidates (input_h_of H) Hmin = spec_height_candidates H Hmin
   \<and> hd (height_candidates (input_h_of H) Hmin) = None
   \<and> (\<forall>h. H = Some h \<and> Hmin < h \<longrightarrow> Some Hmin \<in> set (height_candidates (input_h_of H) Hmin))
   \<and> (H = None \<longrightarrow> height_candidates (input_h_of H) Hmin = [None]
        \<and> stage2 env c lf (drop 1 (height_candidates (input_h_of H) Hmin)) atts None w
            = (Inr (Fallthrough atts None), w))"
proof -
  have unknown: "height_candidates 0 Hmin = [None]"
    by (simp add: height_candidates_known)
  have spec: "height_candidates (input_h_of H) Hmin = spec_height_candidates H Hmin"
  proof (cases H)
    case None
    then show ?thesis using unknown by (simp add: input_h_of_def spec_height_candidates_def)
  next
    case (Some h)
    show ?thesis
    proof (cases "h = 0")
      case True
      have "filter (\<lambda>x. x < 0 \<and> Hmin \<le> x) [2160, 1440, 1080, 720, Hmin] = []"
        using assms by simp
      then show ?thesis using Some True unknown
        by (simp add: input_h_of_def spec_height_candidates_def del: filter.simps)
    next
      case False
      then show ?thesis using Some
        by (simp add: input_h_of_def spec_height_candidates_def height_candidates_known
            del: filter.simps dedup_first.simps)
    qed
  qed
  have mem: "Some Hmin \<in> set (height_candidates (input_h_of H) Hmin)" if "H = Some h" "Hmin < h" for h
  proof -
    have "Some Hmin \<in> set (None # map Some (dedup_first
            (filter (\<lambda>x. h \<noteq> 0 \<and> x < h \<and> Hmin \<le> x) [2160, 1440, 1080, 720, Hmin])))"
      using that assms by (intro mem_spec_ladder) simp_all
    then show ?thesis using that by (simp add: height_candidates_known input_h_of_def
          del: filter.simps dedup_first.simps)
  qed
  have hd0: "hd (height_candidates (input_h_of H) Hmin) = None"
    by (simp add: height_candidates_known del: filter.simps dedup_first.simps)
  have none: "H = None \<Longrightarrow> height_candidates (input_h_of H) Hmin = [None]"
    using unknown by (simp add: input_h_of_def)
  show ?thesis using spec mem hd0 none by simp
qed

theorem height_candidates_ladder_witness:
  "(0::int) < 480
   \<and> height_candidates (input_h_of (Some 1080)) 480 = [None, Some 720, Some 480]
   \<and> Some 480 \<in> set (height_candidates (input_h_of (Some 1080)) 480)
   \<and> height_candidates (input_h_of None) 480 = [None]"
proof -
  have pos: "(0::int) < 480" by simp
  show ?thesis
    using pos height_candidates_ladder [OF pos, of "Some 1080"] height_candidates_ladder [OF pos, of None]
    by (simp add: spec_height_candidates_def)
qed


subsection \<open>Bitrate derivation\<close>









subsection \<open>Validation\<close>

lemma validate_error:
  assumes "(arg_target_bytes a = None) = (arg_target_mb a = None) \<or> arg_min_fps a \<le> 0
           \<or> arg_min_height a \<le> 0 \<or> arg_timeout_s a \<le> 0"
  shows "\<exists>msg. validate a = Inl (ValueError msg)"
  using assms
  by (auto simp add: validate_def split: option.splits sum.splits)

text \<open>
  C9. When both or neither of \<open>target_bytes\<close> and \<open>target_mb\<close> is given, or
  \<open>min_fps\<close>, \<open>min_height\<close> or \<open>timeout_s\<close> is not positive, the operation raises a
  \<open>ValueError\<close> and the log of outside calls is empty: no tool check, no input
  preparation, no probe and no encoder run has been made.
\<close>

theorem configuration_error_first:
  assumes "(arg_target_bytes a = None) = (arg_target_mb a = None) \<or> arg_min_fps a \<le> 0
           \<or> arg_min_height a \<le> 0 \<or> arg_timeout_s a \<le> 0"
  shows "\<exists>msg. adaptive_compress_video env a = (Inl (ValueError msg), \<lparr>events = [], scratch = None\<rparr>)"
proof -
  obtain msg where "validate a = Inl (ValueError msg)"
    using validate_error [OF assms] by blast
  then show ?thesis
    by (simp add: adaptive_compress_video_def start_def)
qed

theorem configuration_error_first_witness:
  "((arg_target_bytes (example_request\<lparr>arg_target_mb := Some 1\<rparr>) = None)
      = (arg_target_mb (example_request\<lparr>arg_target_mb := Some 1\<rparr>) = None))
   \<and> (\<exists>msg. adaptive_compress_video (example_env probe_1080p30 []) (example_request\<lparr>arg_target_mb := Some 1\<rparr>)
          = (Inl (ValueError msg), \<lparr>events = [], scratch = None\<rparr>))"
proof -
  have h: "(arg_target_bytes (example_request\<lparr>arg_target_mb := Some 1\<rparr>) = None)
      = (arg_target_mb (example_request\<lparr>arg_target_mb := Some 1\<rparr>) = None)"
    by (simp add: example_request_def)
  then have "(arg_target_bytes (example_request\<lparr>arg_target_mb := Some 1\<rparr>) = None)
      = (arg_target_mb (example_request\<lparr>arg_target_mb := Some 1\<rparr>) = None)
      \<or> arg_min_fps (example_request\<lparr>arg_target_mb := Some 1\<rparr>) \<le> 0
      \<or> arg_min_height (example_request\<lparr>arg_target_mb := Some 1\<rparr>) \<le> 0
      \<or> arg_timeout_s (example_request\<lparr>arg_target_mb := Some 1\<rparr>) \<le> 0"
    by (rule disjI1)
  then have "\<exists>msg. adaptive_compress_video (example_env probe_1080p30 [])
                 (example_request\<lparr>arg_target_mb := Some 1\<rparr>)
               = (Inl (ValueError msg), \<lparr>events = [], scratch = None\<rparr>)"
    by (rule configuration_error_first)
  with h show ?thesis by (rule conjI)
qed

subsection \<open>One attempt\<close>

lemma run_log_append: "run_log (xs @ ys) = run_log xs @ run_log ys"
  by (induction xs rule: run_log.induct) simp_all

lemma ffmpeg_runs_append: "ffmpeg_runs (xs @ ys) = ffmpeg_runs xs @ ffmpeg_runs ys"
  by (induction xs rule: ffmpeg_runs.induct) simp_all

lemma ctx_cmd_codec_independent:
  "(\<exists>e. ctx_cmd c codec f h q vb ab = Inl e) \<longleftrightarrow> (\<exists>e. ctx_cmd c codec' f h q vb ab = Inl e)"
  by (cases "rate_control_args vb q") (simp_all add: ctx_cmd_def encode_cmd_def Let_def)

lemma try_encode_nocmd:
  assumes "ctx_cmd c codec f h q vb ab = Inl e"
  shows "try_encode env c f h codec q vb ab w = (Inl e, w)"
  using assms by (simp add: try_encode_def encode_once_def ctx_cmd_def)

lemma try_encode_completed:
  assumes "ctx_cmd c codec f h q vb ab = Inr cmd"
    and "subprocess_run env (events w) cmd (arg_timeout_s (args c)) = Completed n"
  shows "try_encode env c f h codec q vb ab w
           = (Inr n, \<lparr>events = events w @ [FfmpegRun cmd (arg_timeout_s (args c)) (Completed n)],
                      scratch = Some n\<rparr>)"
  using assms by (simp add: try_encode_def encode_once_def ctx_cmd_def run_ffmpeg_def Let_def)

lemma try_encode_failed:
  assumes "ctx_cmd c codec f h q vb ab = Inr cmd"
    and "subprocess_run env (events w) cmd (arg_timeout_s (args c)) = r"
    and "raised r = Some e"
  shows "try_encode env c f h codec q vb ab w
           = (Inl e, \<lparr>events = events w @ [FfmpegRun cmd (arg_timeout_s (args c)) r],
                      scratch = None\<rparr>)"
  using assms
  by (cases r) (simp_all add: try_encode_def encode_once_def ctx_cmd_def run_ffmpeg_def Let_def raised_def)

lemma try_encode_Inr:
  assumes "try_encode env c f h codec q vb ab w = (Inr sz, w')"
  shows "\<exists>cmd. ctx_cmd c codec f h q vb ab = Inr cmd
       \<and> subprocess_run env (events w) cmd (arg_timeout_s (args c)) = Completed sz
       \<and> w' = \<lparr>events = events w @ [FfmpegRun cmd (arg_timeout_s (args c)) (Completed sz)],
                 scratch = Some sz\<rparr>"
proof (cases "ctx_cmd c codec f h q vb ab")
  case (Inl e)
  then show ?thesis using assms try_encode_nocmd [OF Inl] by simp
next
  case (Inr cmd)
  show ?thesis
  proof (cases "subprocess_run env (events w) cmd (arg_timeout_s (args c))")
    case (Completed n)
    show ?thesis using assms Inr Completed unfolding try_encode_completed [OF Inr Completed] by auto
  next
    case TimeoutExpired
    have "raised TimeoutExpired = Some (ValueError ''ffmpeg execution timeout'')"
      by (simp add: raised_def)
    from try_encode_failed [OF Inr TimeoutExpired this] show ?thesis using assms by simp
  next
    case (CalledProcessError x)
    have "raised (CalledProcessError x) = Some (ValueError (''ffmpeg execution failed: '' @ x))"
      by (simp add: raised_def)
    from try_encode_failed [OF Inr CalledProcessError this] show ?thesis using assms by simp
  next
    case (SpawnFailed x)
    have "raised (SpawnFailed x) = Some (OSError x)" by (simp add: raised_def)
    from try_encode_failed [OF Inr SpawnFailed this] show ?thesis using assms by simp
  qed
qed

lemma try_encode_Inl:
  assumes "try_encode env c f h codec q vb ab w = (Inl e, w')"
  shows "(ctx_cmd c codec f h q vb ab = Inl e \<and> w' = w)
       \<or> (\<exists>cmd r. ctx_cmd c codec f h q vb ab = Inr cmd
             \<and> subprocess_run env (events w) cmd (arg_timeout_s (args c)) = r
             \<and> raised r = Some e
             \<and> w' = \<lparr>events = events w @ [FfmpegRun cmd (arg_timeout_s (args c)) r],
                       scratch = None\<rparr>)"
proof (cases "ctx_cmd c codec f h q vb ab")
  case (Inl e')
  then show ?thesis using assms try_encode_nocmd [OF Inl] by simp
next
  case (Inr cmd)
  show ?thesis
  proof (cases "subprocess_run env (events w) cmd (arg_timeout_s (args c))")
    case (Completed n)
    show ?thesis using assms unfolding try_encode_completed [OF Inr Completed] by simp
  next
    case TimeoutExpired
    have r: "raised TimeoutExpired = Some (ValueError ''ffmpeg execution timeout'')"
      by (simp add: raised_def)
    from try_encode_failed [OF Inr TimeoutExpired r] show ?thesis
      using assms Inr TimeoutExpired r by auto
  next
    case (CalledProcessError x)
    have r: "raised (CalledProcessError x) = Some (ValueError (''ffmpeg execution failed: '' @ x))"
      by (simp add: raised_def)
    from try_encode_failed [OF Inr CalledProcessError r] show ?thesis
      using assms Inr CalledProcessError r by auto
  next
    case (SpawnFailed x)
    have r: "raised (SpawnFailed x) = Some (OSError x)" by (simp add: raised_def)
    from try_encode_failed [OF Inr SpawnFailed r] show ?thesis
      using assms Inr SpawnFailed r by auto
  qed
qed


lemma ewcf_first_ok:
  assumes "try_encode env c f h (preferred_codec c) q vb ab w = (Inr sz, w')"
  shows "encode_with_codec_fallback env c f h q vb ab w = (Inr (preferred_codec c, sz), w')"
  using assms by (simp add: encode_with_codec_fallback_def)

lemma ewcf_first_oserror:
  assumes "try_encode env c f h (preferred_codec c) q vb ab w = (Inl (OSError m), w')"
  shows "encode_with_codec_fallback env c f h q vb ab w = (Inl (OSError m), w')"
  using assms by (simp add: encode_with_codec_fallback_def)

lemma ewcf_no_fallback:
  assumes "try_encode env c f h (preferred_codec c) q vb ab w = (Inl (ValueError m), w')"
    and "\<not> truthy (fallback_codec c)"
  shows "encode_with_codec_fallback env c f h q vb ab w = (Inl (ValueError m), w')"
  using assms by (simp add: encode_with_codec_fallback_def truthy_def split: option.splits)

lemma ewcf_fallback:
  assumes "try_encode env c f h (preferred_codec c) q vb ab w = (Inl (ValueError m), w')"
    and "fallback_codec c = Some fb" and "fb \<noteq> []"
  shows "encode_with_codec_fallback env c f h q vb ab w
           = (case try_encode env c f h fb q vb ab w' of
                (Inr sz, w'') \<Rightarrow> (Inr (fb, sz), w'')
              | (Inl e, w'') \<Rightarrow> (Inl e, w''))"
  using assms by (simp add: encode_with_codec_fallback_def)

lemma run_log_failed:
  assumes "raised r = Some e"
  shows "run_log (FfmpegRun cmd t r # es) = run_log es"
  using assms by (cases r) (simp_all add: raised_def)

lemma ewcf_Inr:
  assumes "encode_with_codec_fallback env c f h q vb ab w = (Inr (codec, sz), w')"
  shows "\<exists>cmd. ctx_cmd c codec f h q vb ab = Inr cmd \<and> scratch w' = Some sz
     \<and> ((codec = preferred_codec c
          \<and> subprocess_run env (events w) cmd (arg_timeout_s (args c)) = Completed sz
          \<and> events w' = events w @ [FfmpegRun cmd (arg_timeout_s (args c)) (Completed sz)])
        \<or> (fallback_codec c = Some codec
            \<and> (\<exists>cmdP r m. ctx_cmd c (preferred_codec c) f h q vb ab = Inr cmdP
                  \<and> subprocess_run env (events w) cmdP (arg_timeout_s (args c)) = r
                  \<and> raised r = Some (ValueError m)
                  \<and> events w' = events w @ [FfmpegRun cmdP (arg_timeout_s (args c)) r,
                                              FfmpegRun cmd (arg_timeout_s (args c)) (Completed sz)])))"
proof -
  let ?t = "arg_timeout_s (args c)"
  obtain res w1 where first: "try_encode env c f h (preferred_codec c) q vb ab w = (res, w1)"
    by (cases "try_encode env c f h (preferred_codec c) q vb ab w")
  show ?thesis
  proof (cases res)
    case (Inr n)
    with first have one: "try_encode env c f h (preferred_codec c) q vb ab w = (Inr n, w1)" by simp
    from ewcf_first_ok [OF one] assms have eq: "codec = preferred_codec c" "n = sz" "w1 = w'" by simp_all
    from try_encode_Inr [OF one] eq show ?thesis by auto
  next
    case (Inl e)
    show ?thesis
    proof (cases e)
      case (OSError m)
      with first Inl have "try_encode env c f h (preferred_codec c) q vb ab w = (Inl (OSError m), w1)"
        by simp
      from ewcf_first_oserror [OF this] assms show ?thesis by simp
    next
      case (ValueError m)
      with first Inl have one: "try_encode env c f h (preferred_codec c) q vb ab w = (Inl (ValueError m), w1)"
        by simp
      show ?thesis
      proof (cases "truthy (fallback_codec c)")
        case False
        from ewcf_no_fallback [OF one False] assms show ?thesis by simp
      next
        case True
        then obtain fb where fb: "fallback_codec c = Some fb" "fb \<noteq> []"
          by (auto simp add: truthy_def split: option.splits)
        obtain res2 w2 where second: "try_encode env c f h fb q vb ab w1 = (res2, w2)"
          by (cases "try_encode env c f h fb q vb ab w1")
        from ewcf_fallback [OF one fb] second assms
        have r2: "res2 = Inr sz" "codec = fb" "w2 = w'"
          by (auto split: sum.splits)
        from second r2 have two: "try_encode env c f h fb q vb ab w1 = (Inr sz, w')" by simp
        from try_encode_Inr [OF two] obtain cmd where cmd: "ctx_cmd c fb f h q vb ab = Inr cmd"
          "subprocess_run env (events w1) cmd ?t = Completed sz"
          "w' = \<lparr>events = events w1 @ [FfmpegRun cmd ?t (Completed sz)], scratch = Some sz\<rparr>"
          by blast
        have "\<not> (\<exists>e. ctx_cmd c (preferred_codec c) f h q vb ab = Inl e)"
          using cmd(1) ctx_cmd_codec_independent [of c "preferred_codec c" f h q vb ab fb] by simp
        with try_encode_Inl [OF one] obtain cmdP r where p:
          "ctx_cmd c (preferred_codec c) f h q vb ab = Inr cmdP"
          "subprocess_run env (events w) cmdP ?t = r" "raised r = Some (ValueError m)"
          "w1 = \<lparr>events = events w @ [FfmpegRun cmdP ?t r], scratch = None\<rparr>"
          by blast
        show ?thesis using cmd p r2 fb by auto
      qed
    qed
  qed
qed

lemma ewcf_run_log:
  assumes "encode_with_codec_fallback env c f h q vb ab w = (Inr (codec, sz), w')"
  shows "run_log (events w') = run_log (events w) @ [(ctx_cmd c codec f h q vb ab, sz)]"
    and "scratch w' = Some sz"
  using ewcf_Inr [OF assms] by (auto simp add: run_log_append run_log_failed)

subsection \<open>The stages\<close>

lemma store_output_ok:
  assumes "arg_output (args c) \<noteq> []" and "output_failure env = None" and "scratch w = Some n"
  shows "store_output env c w = (Inr (), \<lparr>events = events w @ [StoreOutput n], scratch = None\<rparr>)"
  using assms by (simp add: store_output_def)

lemma store_output_Inr:
  assumes "store_output env c w = (Inr u, w')"
  shows "\<exists>n. scratch w = Some n \<and> w' = \<lparr>events = events w @ [StoreOutput n], scratch = None\<rparr>"
  using assms by (auto simp add: store_output_def split: if_splits option.splits)

lemma run_log_store: "run_log (es @ [StoreOutput n]) = run_log es"
  by (simp add: run_log_append)

lemma attempt_call_crf:
  "attempt_call c (crf_attempt c f h codec sz)
     = (ctx_cmd c codec f h (Some (arg_crf (args c))) None (arg_audio_bitrate (args c)), sz)"
  by (simp add: attempt_call_def crf_attempt_def)

lemma attempt_call_bitrate:
  "attempt_call c (bitrate_attempt c f h codec vb sz)
     = (ctx_cmd c codec f h None (Some vb) (arg_audio_bitrate (args c)), sz)"
  by (simp add: attempt_call_def bitrate_attempt_def)

lemma stage1_err:
  assumes "encode_with_codec_fallback env c f None (Some (arg_crf (args c))) None
             (arg_audio_bitrate (args c)) w = (Inl e, w1)"
  shows "stage1 env c (f # fs) atts lf w = (Inl e, w1)"
  using assms by simp

lemma stage1_miss:
  assumes "encode_with_codec_fallback env c f None (Some (arg_crf (args c))) None
             (arg_audio_bitrate (args c)) w = (Inr (codec, sz), w1)"
    and "target c < sz"
  shows "stage1 env c (f # fs) atts lf w
           = stage1 env c fs (atts @ [crf_attempt c f None codec sz]) f w1"
  using assms by (simp add: crf_attempt_def)

lemma stage1_hit:
  assumes "encode_with_codec_fallback env c f None (Some (arg_crf (args c))) None
             (arg_audio_bitrate (args c)) w = (Inr (codec, sz), w1)"
    and "sz \<le> target c"
  shows "stage1 env c (f # fs) atts lf w
           = (case store_output env c w1 of
                (Inl e, w2) \<Rightarrow> (Inl e, w2)
              | (Inr u, w2) \<Rightarrow>
                  (Inr (Returned (result_dict env c sz ''fps'' True
                                    (atts @ [crf_attempt c f None codec sz]))), w2))"
  using assms unfolding crf_attempt_def by simp

lemma stage1_Fallthrough:
  assumes "stage1 env c fs atts lf w = (Inr (Fallthrough atts' lf'), w')"
  shows "\<exists>new. atts' = atts @ new \<and> map fps new = fs \<and> lf' = last (lf # fs)
          \<and> (\<forall>a\<in>set new. target c < output_bytes a \<and> height a = None \<and> video_bitrate a = None)
          \<and> run_log (events w') = run_log (events w) @ map (attempt_call c) new"
  using assms
proof (induction fs arbitrary: atts lf w)
  case Nil
  then show ?case by simp
next
  case (Cons f fs)
  let ?enc = "encode_with_codec_fallback env c f None (Some (arg_crf (args c))) None
                (arg_audio_bitrate (args c)) w"
  obtain res w1 where enc: "?enc = (res, w1)" by (cases ?enc)
  show ?case
  proof (cases res)
    case (Inl e)
    with enc stage1_err [of env c f w e w1 fs atts lf] Cons.prems show ?thesis by simp
  next
    case (Inr cs)
    obtain codec sz where cs: "cs = (codec, sz)" by (cases cs)
    with enc Inr have ok: "?enc = (Inr (codec, sz), w1)" by simp
    show ?thesis
    proof (cases "sz \<le> target c")
      case True
      from stage1_hit [OF ok True, of fs atts lf] Cons.prems show ?thesis
        by (auto split: prod.splits sum.splits)
    next
      case False
      then have big: "target c < sz" by simp
      let ?a = "crf_attempt c f None codec sz"
      from stage1_miss [OF ok big, of fs atts lf] Cons.prems
      have rest: "stage1 env c fs (atts @ [?a]) f w1 = (Inr (Fallthrough atts' lf'), w')" by simp
      from Cons.IH [OF rest] obtain new where new: "atts' = (atts @ [?a]) @ new" "map fps new = fs"
        "lf' = last (f # fs)"
        "\<forall>a\<in>set new. target c < output_bytes a \<and> height a = None \<and> video_bitrate a = None"
        "run_log (events w') = run_log (events w1) @ map (attempt_call c) new"
        by blast
      have a: "fps ?a = f" "output_bytes ?a = sz" "height ?a = None" "video_bitrate ?a = None"
        by (simp_all add: crf_attempt_def)
      have log1: "run_log (events w1) = run_log (events w) @ [attempt_call c ?a]"
        using ewcf_run_log(1) [OF ok] by (simp add: attempt_call_crf)
      show ?thesis
        using new a big log1 by (intro exI [of _ "?a # new"]) simp
    qed
  qed
qed


lemma stage1_Returned:
  assumes "stage1 env c fs atts lf w = (Inr (Returned out), w')"
  shows "\<exists>new. attempts out = atts @ new \<and> new \<noteq> [] \<and> prefix (map fps new) fs
          \<and> strategy out = ''fps'' \<and> success out \<and> target_bytes out = target c
          \<and> actual_bytes out = output_bytes (last new) \<and> output_bytes (last new) \<le> target c
          \<and> (\<forall>a\<in>set (butlast new). target c < output_bytes a)
          \<and> (\<forall>a\<in>set new. height a = None \<and> video_bitrate a = None)
          \<and> run_log (events w') = run_log (events w) @ map (attempt_call c) new"
  using assms
proof (induction fs arbitrary: atts lf w)
  case Nil
  then show ?case by simp
next
  case (Cons f fs)
  let ?enc = "encode_with_codec_fallback env c f None (Some (arg_crf (args c))) None
                (arg_audio_bitrate (args c)) w"
  obtain res w1 where enc: "?enc = (res, w1)" by (cases ?enc)
  show ?case
  proof (cases res)
    case (Inl e)
    with enc stage1_err [of env c f w e w1 fs atts lf] Cons.prems show ?thesis by simp
  next
    case (Inr cs)
    obtain codec sz where cs: "cs = (codec, sz)" by (cases cs)
    with enc Inr have ok: "?enc = (Inr (codec, sz), w1)" by simp
    let ?a = "crf_attempt c f None codec sz"
    have a: "fps ?a = f" "output_bytes ?a = sz" "height ?a = None" "video_bitrate ?a = None"
      by (simp_all add: crf_attempt_def)
    have log1: "run_log (events w1) = run_log (events w) @ [attempt_call c ?a]"
      using ewcf_run_log(1) [OF ok] by (simp add: attempt_call_crf)
    show ?thesis
    proof (cases "sz \<le> target c")
      case True
      obtain r2 w2 where st: "store_output env c w1 = (r2, w2)" by (cases "store_output env c w1")
      from stage1_hit [OF ok True, of fs atts lf] Cons.prems st
      obtain u where r2: "r2 = Inr u" and out: "out = result_dict env c sz ''fps'' True (atts @ [?a])"
        and w2: "w2 = w'"
        by (cases r2) auto
      from store_output_Inr [of env c w1 u w2] st r2 w2
      have "run_log (events w') = run_log (events w1)"
        by (auto simp add: run_log_store)
      then show ?thesis
        using out a True log1 by (intro exI [of _ "[?a]"]) (simp add: result_dict_def)
    next
      case False
      then have big: "target c < sz" by simp
      from stage1_miss [OF ok big, of fs atts lf] Cons.prems
      have rest: "stage1 env c fs (atts @ [?a]) f w1 = (Inr (Returned out), w')" by simp
      from Cons.IH [OF rest] obtain new where new: "attempts out = (atts @ [?a]) @ new" "new \<noteq> []"
        "prefix (map fps new) fs" "strategy out = ''fps''" "success out" "target_bytes out = target c"
        "actual_bytes out = output_bytes (last new)" "output_bytes (last new) \<le> target c"
        "\<forall>a\<in>set (butlast new). target c < output_bytes a"
        "\<forall>a\<in>set new. height a = None \<and> video_bitrate a = None"
        "run_log (events w') = run_log (events w1) @ map (attempt_call c) new"
        by blast
      show ?thesis
        using new a big log1 by (intro exI [of _ "?a # new"]) simp
    qed
  qed
qed

lemma stage1_append:
  "stage1 env c (xs @ ys) atts lf w
     = (case stage1 env c xs atts lf w of
          (Inr (Fallthrough atts' lf'), w') \<Rightarrow> stage1 env c ys atts' lf' w'
        | (Inr (Returned out), w') \<Rightarrow> (Inr (Returned out), w')
        | (Inl e, w') \<Rightarrow> (Inl e, w'))"
proof (induction xs arbitrary: atts lf w)
  case Nil
  show ?case by simp
next
  case (Cons f fs)
  let ?enc = "encode_with_codec_fallback env c f None (Some (arg_crf (args c))) None
                (arg_audio_bitrate (args c)) w"
  obtain res w1 where enc: "?enc = (res, w1)" by (cases ?enc)
  show ?case
  proof (cases res)
    case (Inl e)
    with enc have e: "?enc = (Inl e, w1)" by simp
    show ?thesis
      using stage1_err [OF e, of "fs @ ys" atts lf] stage1_err [OF e, of fs atts lf] by simp
  next
    case (Inr cs)
    obtain codec sz where cs: "cs = (codec, sz)" by (cases cs)
    with enc Inr have ok: "?enc = (Inr (codec, sz), w1)" by simp
    show ?thesis
    proof (cases "sz \<le> target c")
      case True
      show ?thesis
        using stage1_hit [OF ok True, of "fs @ ys" atts lf] stage1_hit [OF ok True, of fs atts lf]
        by (simp split: prod.splits sum.splits)
    next
      case False
      then have big: "target c < sz" by simp
      show ?thesis
        using stage1_miss [OF ok big, of "fs @ ys" atts lf] stage1_miss [OF ok big, of fs atts lf]
          Cons.IH [of "atts @ [crf_attempt c f None codec sz]" f w1]
        by simp
    qed
  qed
qed

lemma stage2_err:
  assumes "encode_with_codec_fallback env c lfps h (Some (arg_crf (args c))) None
             (arg_audio_bitrate (args c)) w = (Inl e, w1)"
  shows "stage2 env c lfps (h # hs) atts lh w = (Inl e, w1)"
  using assms by simp

lemma stage2_miss:
  assumes "encode_with_codec_fallback env c lfps h (Some (arg_crf (args c))) None
             (arg_audio_bitrate (args c)) w = (Inr (codec, sz), w1)"
    and "target c < sz"
  shows "stage2 env c lfps (h # hs) atts lh w
           = stage2 env c lfps hs (atts @ [crf_attempt c lfps h codec sz]) h w1"
  using assms by (simp add: crf_attempt_def)

lemma stage2_hit:
  assumes "encode_with_codec_fallback env c lfps h (Some (arg_crf (args c))) None
             (arg_audio_bitrate (args c)) w = (Inr (codec, sz), w1)"
    and "sz \<le> target c"
  shows "stage2 env c lfps (h # hs) atts lh w
           = (case store_output env c w1 of
                (Inl e, w2) \<Rightarrow> (Inl e, w2)
              | (Inr u, w2) \<Rightarrow>
                  (Inr (Returned (result_dict env c sz ''fps+scale'' True
                                    (atts @ [crf_attempt c lfps h codec sz]))), w2))"
  using assms unfolding crf_attempt_def by simp

lemma stage2_Fallthrough:
  assumes "stage2 env c lfps hs atts lh w = (Inr (Fallthrough atts' lh'), w')"
  shows "\<exists>new. atts' = atts @ new \<and> map height new = hs \<and> lh' = last (lh # hs)
          \<and> (\<forall>a\<in>set new. target c < output_bytes a \<and> fps a = lfps \<and> video_bitrate a = None)
          \<and> run_log (events w') = run_log (events w) @ map (attempt_call c) new"
  using assms
proof (induction hs arbitrary: atts lh w)
  case Nil
  then show ?case by simp
next
  case (Cons h hs)
  let ?enc = "encode_with_codec_fallback env c lfps h (Some (arg_crf (args c))) None
                (arg_audio_bitrate (args c)) w"
  obtain res w1 where enc: "?enc = (res, w1)" by (cases ?enc)
  show ?case
  proof (cases res)
    case (Inl e)
    with enc stage2_err [of env c lfps h w e w1 hs atts lh] Cons.prems show ?thesis by simp
  next
    case (Inr cs)
    obtain codec sz where cs: "cs = (codec, sz)" by (cases cs)
    with enc Inr have ok: "?enc = (Inr (codec, sz), w1)" by simp
    show ?thesis
    proof (cases "sz \<le> target c")
      case True
      from stage2_hit [OF ok True, of hs atts lh] Cons.prems show ?thesis
        by (auto split: prod.splits sum.splits)
    next
      case False
      then have big: "target c < sz" by simp
      let ?a = "crf_attempt c lfps h codec sz"
      from stage2_miss [OF ok big, of hs atts lh] Cons.prems
      have rest: "stage2 env c lfps hs (atts @ [?a]) h w1 = (Inr (Fallthrough atts' lh'), w')" by simp
      from Cons.IH [OF rest] obtain new where new: "atts' = (atts @ [?a]) @ new" "map height new = hs"
        "lh' = last (h # hs)"
        "\<forall>a\<in>set new. target c < output_bytes a \<and> fps a = lfps \<and> video_bitrate a = None"
        "run_log (events w') = run_log (events w1) @ map (attempt_call c) new"
        by blast
      have a: "fps ?a = lfps" "output_bytes ?a = sz" "height ?a = h" "video_bitrate ?a = None"
        by (simp_all add: crf_attempt_def)
      have log1: "run_log (events w1) = run_log (events w) @ [attempt_call c ?a]"
        using ewcf_run_log(1) [OF ok] by (simp add: attempt_call_crf)
      show ?thesis
        using new a big log1 by (intro exI [of _ "?a # new"]) simp
    qed
  qed
qed

lemma stage2_Returned:
  assumes "stage2 env c lfps hs atts lh w = (Inr (Returned out), w')"
  shows "\<exists>new. attempts out = atts @ new \<and> new \<noteq> [] \<and> prefix (map height new) hs
          \<and> strategy out = ''fps+scale'' \<and> success out \<and> target_bytes out = target c
          \<and> actual_bytes out = output_bytes (last new) \<and> output_bytes (last new) \<le> target c
          \<and> (\<forall>a\<in>set (butlast new). target c < output_bytes a)
          \<and> (\<forall>a\<in>set new. fps a = lfps \<and> video_bitrate a = None)
          \<and> run_log (events w') = run_log (events w) @ map (attempt_call c) new"
  using assms
proof (induction hs arbitrary: atts lh w)
  case Nil
  then show ?case by simp
next
  case (Cons h hs)
  let ?enc = "encode_with_codec_fallback env c lfps h (Some (arg_crf (args c))) None
                (arg_audio_bitrate (args c)) w"
  obtain res w1 where enc: "?enc = (res, w1)" by (cases ?enc)
  show ?case
  proof (cases res)
    case (Inl e)
    with enc stage2_err [of env c lfps h w e w1 hs atts lh] Cons.prems show ?thesis by simp
  next
    case (Inr cs)
    obtain codec sz where cs: "cs = (codec, sz)" by (cases cs)
    with enc Inr have ok: "?enc = (Inr (codec, sz), w1)" by simp
    let ?a = "crf_attempt c lfps h codec sz"
    have a: "fps ?a = lfps" "output_bytes ?a = sz" "height ?a = h" "video_bitrate ?a = None"
      by (simp_all add: crf_attempt_def)
    have log1: "run_log (events w1) = run_log (events w) @ [attempt_call c ?a]"
      using ewcf_run_log(1) [OF ok] by (simp add: attempt_call_crf)
    show ?thesis
    proof (cases "sz \<le> target c")
      case True
      obtain r2 w2 where st: "store_output env c w1 = (r2, w2)" by (cases "store_output env c w1")
      from stage2_hit [OF ok True, of hs atts lh] Cons.prems st
      obtain u where r2: "r2 = Inr u"
        and out: "out = result_dict env c sz ''fps+scale'' True (atts @ [?a])"
        and w2: "w2 = w'"
        by (cases r2) auto
      from store_output_Inr [of env c w1 u w2] st r2 w2
      have "run_log (events w') = run_log (events w1)"
        by (auto simp add: run_log_store)
      then show ?thesis
        using out a True log1 by (intro exI [of _ "[?a]"]) (simp add: result_dict_def)
    next
      case False
      then have big: "target c < sz" by simp
      from stage2_miss [OF ok big, of hs atts lh] Cons.prems
      have rest: "stage2 env c lfps hs (atts @ [?a]) h w1 = (Inr (Returned out), w')" by simp
      from Cons.IH [OF rest] obtain new where new: "attempts out = (atts @ [?a]) @ new" "new \<noteq> []"
        "prefix (map height new) hs" "strategy out = ''fps+scale''" "success out"
        "target_bytes out = target c"
        "actual_bytes out = output_bytes (last new)" "output_bytes (last new) \<le> target c"
        "\<forall>a\<in>set (butlast new). target c < output_bytes a"
        "\<forall>a\<in>set new. fps a = lfps \<and> video_bitrate a = None"
        "run_log (events w') = run_log (events w1) @ map (attempt_call c) new"
        by blast
      show ?thesis
        using new a big log1 by (intro exI [of _ "?a # new"]) simp
    qed
  qed
qed

text \<open>Stage 3.\<close>

lemma stage3_eq:
  assumes "encode_with_codec_fallback env c (stage3_fps lf (arg_min_fps (args c)))
             (stage3_height lh ih (arg_min_height (args c))) None
             (Some (v_bitrate_of (target_video_bps (target c) (duration_s p)
                                    (arg_audio_bitrate (args c)))))
             (arg_audio_bitrate (args c)) w = (Inr (codec, sz), w1)"
  shows "stage3 env c p ih atts lf lh w
           = (case store_output env c w1 of
                (Inl e, w2) \<Rightarrow> (Inl e, w2)
              | (Inr u, w2) \<Rightarrow>
                  (Inr (result_dict env c sz ''fps+scale+bitrate'' (sz \<le> target c)
                          (atts @ [bitrate_attempt c (stage3_fps lf (arg_min_fps (args c))) lh codec
                                     (v_bitrate_of (target_video_bps (target c) (duration_s p)
                                                      (arg_audio_bitrate (args c)))) sz])), w2))"
  using assms unfolding bitrate_attempt_def stage3_def Let_def by simp

lemma stage3_err:
  assumes "encode_with_codec_fallback env c (stage3_fps lf (arg_min_fps (args c)))
             (stage3_height lh ih (arg_min_height (args c))) None
             (Some (v_bitrate_of (target_video_bps (target c) (duration_s p)
                                    (arg_audio_bitrate (args c)))))
             (arg_audio_bitrate (args c)) w = (Inl e, w1)"
  shows "stage3 env c p ih atts lf lh w = (Inl e, w1)"
  using assms unfolding stage3_def Let_def by simp

subsection \<open>The search\<close>

lemma search_error1:
  assumes "stage1 env c (fps_candidates (input_fps_of (video_fps p)) (arg_min_fps (args c)))
             [] None w = (Inl e, w1)"
  shows "search env c p w = (Inl e, w1)"
  using assms by (simp add: search_def Let_def)

lemma search_returned1:
  assumes "stage1 env c (fps_candidates (input_fps_of (video_fps p)) (arg_min_fps (args c)))
             [] None w = (Inr (Returned out), w1)"
  shows "search env c p w = (Inr out, w1)"
  using assms by (simp add: search_def Let_def)

lemma search_error2:
  assumes "stage1 env c (fps_candidates (input_fps_of (video_fps p)) (arg_min_fps (args c)))
             [] None w = (Inr (Fallthrough atts1 lf), w1)"
    and "stage2 env c lf
           (drop 1 (height_candidates (input_h_of (video_height p)) (arg_min_height (args c))))
           atts1 None w1 = (Inl e, w2)"
  shows "search env c p w = (Inl e, w2)"
  using assms by (simp add: search_def Let_def)

lemma search_returned2:
  assumes "stage1 env c (fps_candidates (input_fps_of (video_fps p)) (arg_min_fps (args c)))
             [] None w = (Inr (Fallthrough atts1 lf), w1)"
    and "stage2 env c lf
           (drop 1 (height_candidates (input_h_of (video_height p)) (arg_min_height (args c))))
           atts1 None w1 = (Inr (Returned out), w2)"
  shows "search env c p w = (Inr out, w2)"
  using assms by (simp add: search_def Let_def)

lemma search_stage3:
  assumes "stage1 env c (fps_candidates (input_fps_of (video_fps p)) (arg_min_fps (args c)))
             [] None w = (Inr (Fallthrough atts1 lf), w1)"
    and "stage2 env c lf
           (drop 1 (height_candidates (input_h_of (video_height p)) (arg_min_height (args c))))
           atts1 None w1 = (Inr (Fallthrough atts2 lh), w2)"
  shows "search env c p w = stage3 env c p (input_h_of (video_height p)) atts2 lf lh w2"
  using assms by (simp add: search_def Let_def)

lemma stage3_height_dead:
  "stage3_height (last (None # drop 1 (height_candidates ih mh))) ih mh
     = last (None # drop 1 (height_candidates ih mh))"
proof -
  let ?ys = "dedup_first (filter (\<lambda>h. ih \<noteq> 0 \<and> h < ih \<and> mh \<le> h) [2160, 1440, 1080, 720, mh])"
  have d: "drop 1 (height_candidates ih mh) = map Some ?ys"
    by (simp add: height_candidates_known del: dedup_first.simps filter.simps)
  show ?thesis
  proof (cases "?ys = []")
    case True
    have "\<not> (ih \<noteq> 0 \<and> mh < ih)"
    proof
      assume "ih \<noteq> 0 \<and> mh < ih"
      then have "mh \<in> set (filter (\<lambda>h. ih \<noteq> 0 \<and> h < ih \<and> mh \<le> h) [2160, 1440, 1080, 720, mh])"
        by simp
      then have "mh \<in> set ?ys" by (simp only: set_dedup_first)
      with True show False by simp
    qed
    then show ?thesis unfolding d True by (auto simp add: stage3_height_def)
  next
    case False
    then have "last (None # map Some ?ys) = Some (last ?ys)"
      by (simp add: last_map del: dedup_first.simps filter.simps)
    then show ?thesis unfolding d by (simp add: stage3_height_def del: dedup_first.simps filter.simps)
  qed
qed

lemma search_run_log:
  assumes "search env c p w = (Inr out, w')"
  shows "run_log (events w') = run_log (events w) @ map (attempt_call c) (attempts out)"
proof -
  let ?fcs = "fps_candidates (input_fps_of (video_fps p)) (arg_min_fps (args c))"
  let ?ih = "input_h_of (video_height p)"
  let ?hs = "drop 1 (height_candidates ?ih (arg_min_height (args c)))"
  obtain res1 w1 where s1: "stage1 env c ?fcs [] None w = (res1, w1)"
    by (cases "stage1 env c ?fcs [] None w")
  show ?thesis
  proof (cases res1)
    case (Inl e)
    with s1 search_error1 [of env c p w e w1] assms show ?thesis by simp
  next
    case (Inr st1)
    show ?thesis
    proof (cases st1)
      case (Returned o1)
      with s1 Inr have r: "stage1 env c ?fcs [] None w = (Inr (Returned o1), w1)" by simp
      from search_returned1 [OF r] assms have "out = o1" "w' = w1" by simp_all
      with stage1_Returned [OF r] show ?thesis by auto
    next
      case (Fallthrough atts1 lf)
      with s1 Inr have f1: "stage1 env c ?fcs [] None w = (Inr (Fallthrough atts1 lf), w1)" by simp
      from stage1_Fallthrough [OF f1]
      have log1: "run_log (events w1) = run_log (events w) @ map (attempt_call c) atts1"
        by auto
      obtain res2 w2 where s2: "stage2 env c lf ?hs atts1 None w1 = (res2, w2)"
        by (cases "stage2 env c lf ?hs atts1 None w1")
      show ?thesis
      proof (cases res2)
        case (Inl e)
        with s2 have "stage2 env c lf ?hs atts1 None w1 = (Inl e, w2)" by simp
        from search_error2 [OF f1 this] assms show ?thesis by simp
      next
        case (Inr st2)
        show ?thesis
        proof (cases st2)
          case (Returned o2)
          with s2 Inr have r: "stage2 env c lf ?hs atts1 None w1 = (Inr (Returned o2), w2)" by simp
          from search_returned2 [OF f1 r] assms have "out = o2" "w' = w2" by simp_all
          with stage2_Returned [OF r] log1 show ?thesis by auto
        next
          case (Fallthrough atts2 lh)
          with s2 Inr have f2: "stage2 env c lf ?hs atts1 None w1 = (Inr (Fallthrough atts2 lh), w2)"
            by simp
          from stage2_Fallthrough [OF f2] obtain new where new: "atts2 = atts1 @ new"
            "lh = last (None # ?hs)"
            "run_log (events w2) = run_log (events w1) @ map (attempt_call c) new"
            by auto
          have hd: "stage3_height lh ?ih (arg_min_height (args c)) = lh"
            unfolding new(2) by (rule stage3_height_dead)
          let ?vb = "v_bitrate_of (target_video_bps (target c) (duration_s p)
                                     (arg_audio_bitrate (args c)))"
          let ?f3 = "stage3_fps lf (arg_min_fps (args c))"
          let ?enc = "encode_with_codec_fallback env c ?f3
                        (stage3_height lh ?ih (arg_min_height (args c))) None (Some ?vb)
                        (arg_audio_bitrate (args c)) w2"
          have s3: "search env c p w = stage3 env c p ?ih atts2 lf lh w2"
            by (rule search_stage3 [OF f1 f2])
          obtain res3 w3 where e3: "?enc = (res3, w3)" by (cases ?enc)
          show ?thesis
          proof (cases res3)
            case (Inl e)
            with e3 have "?enc = (Inl e, w3)" by simp
            from stage3_err [OF this] s3 assms show ?thesis by simp
          next
            case (Inr cs)
            obtain codec sz where "cs = (codec, sz)" by (cases cs)
            with e3 Inr have ok: "?enc = (Inr (codec, sz), w3)" by simp
            let ?b = "bitrate_attempt c ?f3 lh codec ?vb sz"
            obtain r4 w4 where st: "store_output env c w3 = (r4, w4)"
              by (cases "store_output env c w3")
            from stage3_eq [OF ok, of atts2] s3 assms st
            obtain u where r4: "r4 = Inr u" and w4: "w4 = w'"
              and out: "out = result_dict env c sz ''fps+scale+bitrate'' (sz \<le> target c) (atts2 @ [?b])"
              by (cases r4) auto
            from store_output_Inr [of env c w3 u w4] st r4 w4
            have l4: "run_log (events w') = run_log (events w3)"
              by (auto simp add: run_log_store)
            have l3: "run_log (events w3) = run_log (events w2) @ [attempt_call c ?b]"
              using ewcf_run_log(1) [OF ok] unfolding hd by (simp add: attempt_call_bitrate)
            show ?thesis
              using l4 l3 new log1 out by (simp add: result_dict_def)
          qed
        qed
      qed
    qed
  qed
qed



lemma raised_Completed: "raised r = Some e \<Longrightarrow> r \<noteq> Completed n"
  by (auto simp add: raised_def)






lemma pairs_of_fps:
  assumes "\<forall>a\<in>set new. height a = None"
  shows "map (\<lambda>a. (fps a, height a)) new = map (\<lambda>f. (f, None)) (map fps new)"
  using assms by (induction new) simp_all

lemma pairs_of_height:
  assumes "\<forall>a\<in>set new. fps a = lf"
  shows "map (\<lambda>a. (fps a, height a)) new = map (\<lambda>h. (lf, h)) (map height new)"
  using assms by (induction new) simp_all

lemma search_plan:
  assumes "search env c p w = (Inr out, w')"
  shows "prefix (map (\<lambda>a. (fps a, height a)) (attempts out)) (plan c p)"
proof -
  let ?fcs = "fps_candidates (input_fps_of (video_fps p)) (arg_min_fps (args c))"
  let ?ih = "input_h_of (video_height p)"
  let ?hs = "drop 1 (height_candidates ?ih (arg_min_height (args c)))"
  let ?lf = "last (None # ?fcs)"
  let ?A = "map (\<lambda>f. (f, None :: int option)) ?fcs"
  let ?B = "map (\<lambda>h. (?lf, h)) ?hs"
  let ?Z = "[(stage3_fps ?lf (arg_min_fps (args c)), last (None # ?hs))]"
  have pl: "plan c p = ?A @ ?B @ ?Z" by (simp add: plan_def Let_def)
  obtain res1 w1 where s1: "stage1 env c ?fcs [] None w = (res1, w1)"
    by (cases "stage1 env c ?fcs [] None w")
  show ?thesis
  proof (cases res1)
    case (Inl e)
    with s1 search_error1 [of env c p w e w1] assms show ?thesis by simp
  next
    case (Inr st1)
    show ?thesis
    proof (cases st1)
      case (Returned o1)
      with s1 Inr have r: "stage1 env c ?fcs [] None w = (Inr (Returned o1), w1)" by simp
      from search_returned1 [OF r] assms have o: "out = o1" by simp
      from stage1_Returned [OF r] o obtain new where new: "attempts out = new"
        "prefix (map fps new) ?fcs" "\<forall>a\<in>set new. height a = None"
        by auto
      have "prefix (map (\<lambda>f. (f, None :: int option)) (map fps new)) ?A"
        using new(2) by (rule map_mono_prefix)
      then have "prefix (map (\<lambda>a. (fps a, height a)) new) (?A @ ?B @ ?Z)"
        unfolding pairs_of_fps [OF new(3)] by (rule prefix_prefix)
      then show ?thesis unfolding pl new(1) .
    next
      case (Fallthrough atts1 lf)
      with s1 Inr have f1: "stage1 env c ?fcs [] None w = (Inr (Fallthrough atts1 lf), w1)" by simp
      from stage1_Fallthrough [OF f1] have a1: "map fps atts1 = ?fcs" "lf = ?lf"
        "\<forall>a\<in>set atts1. height a = None"
        by auto
      have A: "map (\<lambda>a. (fps a, height a)) atts1 = ?A"
        unfolding pairs_of_fps [OF a1(3)] a1(1) ..
      obtain res2 w2 where s2: "stage2 env c lf ?hs atts1 None w1 = (res2, w2)"
        by (cases "stage2 env c lf ?hs atts1 None w1")
      show ?thesis
      proof (cases res2)
        case (Inl e)
        with s2 have "stage2 env c lf ?hs atts1 None w1 = (Inl e, w2)" by simp
        from search_error2 [OF f1 this] assms show ?thesis by simp
      next
        case (Inr st2)
        show ?thesis
        proof (cases st2)
          case (Returned o2)
          with s2 Inr have r: "stage2 env c lf ?hs atts1 None w1 = (Inr (Returned o2), w2)" by simp
          from search_returned2 [OF f1 r] assms have o: "out = o2" by simp
          from stage2_Returned [OF r] o obtain new where new: "attempts out = atts1 @ new"
            "prefix (map height new) ?hs" "\<forall>a\<in>set new. fps a = lf"
            by auto
          have "prefix (map (\<lambda>h. (lf, h)) (map height new)) (map (\<lambda>h. (lf, h)) ?hs)"
            using new(2) by (rule map_mono_prefix)
          then have "prefix (map (\<lambda>a. (fps a, height a)) new) (?B @ ?Z)"
            unfolding pairs_of_height [OF new(3)] a1(2) by (rule prefix_prefix)
          then have "prefix (?A @ map (\<lambda>a. (fps a, height a)) new) (?A @ ?B @ ?Z)"
            by (simp only: same_prefix_prefix)
          then show ?thesis unfolding pl new(1) map_append A .
        next
          case (Fallthrough atts2 lh)
          with s2 Inr have f2: "stage2 env c lf ?hs atts1 None w1 = (Inr (Fallthrough atts2 lh), w2)"
            by simp
          from stage2_Fallthrough [OF f2] obtain new where new: "atts2 = atts1 @ new"
            "map height new = ?hs" "lh = last (None # ?hs)" "\<forall>a\<in>set new. fps a = lf"
            by auto
          have B: "map (\<lambda>a. (fps a, height a)) new = ?B"
            unfolding pairs_of_height [OF new(4)] new(2) a1(2) ..
          let ?vb = "v_bitrate_of (target_video_bps (target c) (duration_s p)
                                     (arg_audio_bitrate (args c)))"
          let ?f3 = "stage3_fps lf (arg_min_fps (args c))"
          let ?enc = "encode_with_codec_fallback env c ?f3
                        (stage3_height lh ?ih (arg_min_height (args c))) None (Some ?vb)
                        (arg_audio_bitrate (args c)) w2"
          have s3: "search env c p w = stage3 env c p ?ih atts2 lf lh w2"
            by (rule search_stage3 [OF f1 f2])
          obtain res3 w3 where e3: "?enc = (res3, w3)" by (cases ?enc)
          show ?thesis
          proof (cases res3)
            case (Inl e)
            with e3 have "?enc = (Inl e, w3)" by simp
            from stage3_err [OF this] s3 assms show ?thesis by simp
          next
            case (Inr cs)
            obtain codec sz where "cs = (codec, sz)" by (cases cs)
            with e3 Inr have ok: "?enc = (Inr (codec, sz), w3)" by simp
            let ?b = "bitrate_attempt c ?f3 lh codec ?vb sz"
            obtain r4 w4 where st: "store_output env c w3 = (r4, w4)"
              by (cases "store_output env c w3")
            from stage3_eq [OF ok, of atts2] s3 assms st
            have out: "out = result_dict env c sz ''fps+scale+bitrate'' (sz \<le> target c) (atts2 @ [?b])"
              by (cases r4) auto
            have Z: "map (\<lambda>a. (fps a, height a)) [?b] = ?Z"
              unfolding new(3) a1(2) by (simp add: bitrate_attempt_def)
            have "map (\<lambda>a. (fps a, height a)) (attempts out) = ?A @ ?B @ ?Z"
              unfolding out new(1) using A B Z by (simp add: result_dict_def)
            then show ?thesis unfolding pl by simp
          qed
        qed
      qed
    qed
  qed
qed

lemma adaptive_compress_video_search:
  assumes "validate a = Inr tb" and "verify_ffmpeg_tools env = None"
    and "pick_codec (arg_video_codec a) = Inr (preferred, fallback)"
    and "prepared_input env = Inr local" and "probe_video env = Inr p"
    and "has_video p" and "0 < duration_s p"
  shows "adaptive_compress_video env a
           = search env \<lparr>args = a, ffmpeg_path = find_ffmpeg env, local_in = local,
                         temp_out = temp_path env, target = tb, preferred_codec = preferred,
                         fallback_codec = fallback\<rparr> p
               \<lparr>events = [VerifyTools, PrepareInput, ProbeVideo], scratch = None\<rparr>"
  using assms by (simp add: adaptive_compress_video_def Let_def log_event_def start_def)

lemma fell_throughD:
  assumes "fell_through x"
  shows "x = (Inr (Fallthrough (carried x) (last_tried x)), snd x)"
  using assms
  by (cases x) (auto simp add: fell_through_def carried_def last_tried_def split: sum.splits stage.splits)

lemma encodedD:
  assumes "fst x = Inr r"
  shows "x = (Inr r, snd x)"
  using assms by (cases x) simp

subsection \<open>Outcomes of the search\<close>

text \<open>
  C4. Let the frame-rate candidates be \<open>pre @ f # post\<close>. When stage 1 runs through
  \<open>pre\<close> without meeting the budget, and the encode of \<open>f\<close> leaves a file within the
  budget, and the destination can be written, then the operation returns strategy
  \<open>fps\<close> with \<open>success\<close>, the size of that file as \<open>actual_bytes\<close>, and an attempt log of
  length \<open>length pre + 1\<close> whose earlier entries all exceed the budget; the only outside
  call after that encode is the promotion of its file, so no candidate of \<open>post\<close> is tried.
\<close>

theorem first_fps_success:
  assumes cands: "fps_candidates (input_fps_of (video_fps p)) (arg_min_fps (args c)) = pre @ f # post"
    and before: "stage1 env c pre [] None w = (Inr (Fallthrough atts lf), w1)"
    and hit: "encode_with_codec_fallback env c f None (Some (arg_crf (args c))) None
                (arg_audio_bitrate (args c)) w1 = (Inr (codec, sz), w2)"
    and fits: "sz \<le> target c"
    and dest: "arg_output (args c) \<noteq> []" "output_failure env = None"
  shows "\<exists>out. search env c p w = (Inr out, \<lparr>events = events w2 @ [StoreOutput sz], scratch = None\<rparr>)
          \<and> strategy out = ''fps'' \<and> success out \<and> actual_bytes out = sz
          \<and> length (attempts out) = length pre + 1
          \<and> map fps (attempts out) = pre @ [f]
          \<and> (\<forall>a\<in>set (butlast (attempts out)). target c < output_bytes a)
          \<and> output_bytes (last (attempts out)) = sz"
proof -
  let ?out = "result_dict env c sz ''fps'' True (atts @ [crf_attempt c f None codec sz])"
  let ?w3 = "\<lparr>events = events w2 @ [StoreOutput sz], scratch = None\<rparr>"
  have sc: "scratch w2 = Some sz" using ewcf_run_log(2) [OF hit] .
  have st: "store_output env c w2 = (Inr (), ?w3)"
    using store_output_ok [OF dest sc] .
  have "stage1 env c (pre @ f # post) [] None w = stage1 env c (f # post) atts lf w1"
    using before by (simp add: stage1_append del: stage1.simps)
  also have "\<dots> = (Inr (Returned ?out), ?w3)"
    using stage1_hit [OF hit fits, of post atts lf] st by simp
  finally have "search env c p w = (Inr ?out, ?w3)"
    using cands search_returned1 [of env c p w ?out ?w3] by simp
  moreover from stage1_Fallthrough [OF before] have
    "map fps atts = pre" "\<forall>a\<in>set atts. target c < output_bytes a"
    by auto
  moreover have "length atts = length pre" using \<open>map fps atts = pre\<close> by auto
  ultimately show ?thesis
    by (intro exI [of _ ?out]) (simp add: result_dict_def crf_attempt_def)
qed

theorem first_fps_success_witness:
  "\<exists>out w'. search (example_env probe_1080p30 [Completed 1200, Completed 800, Completed 500])
               (example_ctx example_request ''libx264'' None) probe_1080p30 start = (Inr out, w')
     \<and> strategy out = ''fps'' \<and> success out \<and> actual_bytes out = 500
     \<and> length (attempts out) = 3 \<and> map fps (attempts out) = [None, Some 24, Some 15]"
proof -
  let ?E = "example_env probe_1080p30 [Completed 1200, Completed 800, Completed 500]"
  let ?C = "example_ctx example_request ''libx264'' None"
  let ?X1 = "stage1 ?E ?C [None, Some 24] [] None start"
  let ?X2 = "encode_with_codec_fallback ?E ?C (Some 15) None (Some (arg_crf (args ?C))) None
               (arg_audio_bitrate (args ?C)) (snd ?X1)"
  have cands: "fps_candidates (input_fps_of (video_fps probe_1080p30)) (arg_min_fps (args ?C))
                 = [None, Some 24] @ Some 15 # [Some 12, Some 8]"
    by code_simp
  have "fell_through ?X1" by code_simp
  then have before: "?X1 = (Inr (Fallthrough (carried ?X1) (last_tried ?X1)), snd ?X1)"
    by (rule fell_throughD)
  have "fst ?X2 = Inr (''libx264'', 500)" by code_simp
  then have hit: "?X2 = (Inr (''libx264'', 500), snd ?X2)"
    by (rule encodedD)
  have fits: "500 \<le> target ?C" by (simp add: example_ctx_def example_request_def)
  have dest: "arg_output (args ?C) \<noteq> []" "output_failure ?E = None"
    by (simp_all add: example_ctx_def example_request_def example_env_def)
  from first_fps_success [OF cands before hit fits dest] show ?thesis by auto
qed

text \<open>
  C3. When stages 1 and 2 run through all their candidates without meeting the budget, and
  the bitrate encode returns, and the destination can be written, then the operation
  returns strategy \<open>fps+scale+bitrate\<close> with \<open>success\<close> equal to (size \<le> budget), the
  file of that encode is promoted whatever its size, the attempt log is the earlier attempts
  followed by the bitrate attempt, and that is the only attempt with a bitrate.
\<close>

theorem bitrate_stage_always_returns:
  assumes s1: "stage1 env c (fps_candidates (input_fps_of (video_fps p)) (arg_min_fps (args c)))
                 [] None w = (Inr (Fallthrough atts1 lf), w1)"
    and s2: "stage2 env c lf
               (drop 1 (height_candidates (input_h_of (video_height p)) (arg_min_height (args c))))
               atts1 None w1 = (Inr (Fallthrough atts2 lh), w2)"
    and enc: "encode_with_codec_fallback env c (stage3_fps lf (arg_min_fps (args c)))
                (stage3_height lh (input_h_of (video_height p)) (arg_min_height (args c))) None
                (Some (v_bitrate_of (target_video_bps (target c) (duration_s p)
                                       (arg_audio_bitrate (args c)))))
                (arg_audio_bitrate (args c)) w2 = (Inr (codec, sz), w3)"
    and dest: "arg_output (args c) \<noteq> []" "output_failure env = None"
  shows "\<exists>out. search env c p w = (Inr out, \<lparr>events = events w3 @ [StoreOutput sz], scratch = None\<rparr>)
          \<and> strategy out = ''fps+scale+bitrate'' \<and> success out = (sz \<le> target c)
          \<and> actual_bytes out = sz \<and> attempts out \<noteq> []
          \<and> butlast (attempts out) = atts2
          \<and> (\<forall>a\<in>set atts2. target c < output_bytes a \<and> video_bitrate a = None)
          \<and> output_bytes (last (attempts out)) = sz
          \<and> video_bitrate (last (attempts out))
              = Some (v_bitrate_of (target_video_bps (target c) (duration_s p)
                                      (arg_audio_bitrate (args c))))
          \<and> length (filter (\<lambda>a. video_bitrate a \<noteq> None) (attempts out)) = 1"
proof -
  let ?vb = "v_bitrate_of (target_video_bps (target c) (duration_s p) (arg_audio_bitrate (args c)))"
  let ?b = "bitrate_attempt c (stage3_fps lf (arg_min_fps (args c))) lh codec ?vb sz"
  let ?out = "result_dict env c sz ''fps+scale+bitrate'' (sz \<le> target c) (atts2 @ [?b])"
  let ?w4 = "\<lparr>events = events w3 @ [StoreOutput sz], scratch = None\<rparr>"
  have sc: "scratch w3 = Some sz" using ewcf_run_log(2) [OF enc] .
  have st: "store_output env c w3 = (Inr (), ?w4)"
    using store_output_ok [OF dest sc] .
  have run: "search env c p w = (Inr ?out, ?w4)"
    unfolding search_stage3 [OF s1 s2] stage3_eq [OF enc] using st by simp
  from stage1_Fallthrough [OF s1] have a1: "\<forall>a\<in>set atts1. target c < output_bytes a \<and> video_bitrate a = None"
    by auto
  from stage2_Fallthrough [OF s2] obtain new where new: "atts2 = atts1 @ new"
    "\<forall>a\<in>set new. target c < output_bytes a \<and> video_bitrate a = None"
    by auto
  have a2: "\<forall>a\<in>set atts2. target c < output_bytes a \<and> video_bitrate a = None"
    using a1 new by auto
  then have none: "filter (\<lambda>a. video_bitrate a \<noteq> None) atts2 = []"
    by (simp add: filter_empty_conv)
  have b: "video_bitrate ?b = Some ?vb" "output_bytes ?b = sz"
    by (simp_all add: bitrate_attempt_def)
  have att: "attempts ?out = atts2 @ [?b]" "strategy ?out = ''fps+scale+bitrate''"
    "success ?out = (sz \<le> target c)" "actual_bytes ?out = sz"
    by (simp_all add: result_dict_def)
  show ?thesis
    using run a2 none b att by (intro exI [of _ ?out]) simp
qed

theorem bitrate_stage_always_returns_witness:
  "\<exists>out w'. search (example_env probe_1080p30 (replicate 8 (Completed 900)))
               (example_ctx (example_request\<lparr>arg_target_bytes := Some 1\<rparr>) ''libx264'' None)
               probe_1080p30 start = (Inr out, w')
     \<and> strategy out = ''fps+scale+bitrate'' \<and> \<not> success out \<and> actual_bytes out = 900
     \<and> attempts out \<noteq> []
     \<and> length (filter (\<lambda>a. video_bitrate a \<noteq> None) (attempts out)) = 1"
proof -
  let ?E = "example_env probe_1080p30 (replicate 8 (Completed 900))"
  let ?C = "example_ctx (example_request\<lparr>arg_target_bytes := Some 1\<rparr>) ''libx264'' None"
  let ?P = "probe_1080p30"
  let ?X1 = "stage1 ?E ?C (fps_candidates (input_fps_of (video_fps ?P)) (arg_min_fps (args ?C)))
               [] None start"
  let ?X2 = "stage2 ?E ?C (last_tried ?X1)
               (drop 1 (height_candidates (input_h_of (video_height ?P)) (arg_min_height (args ?C))))
               (carried ?X1) None (snd ?X1)"
  let ?X3 = "encode_with_codec_fallback ?E ?C (stage3_fps (last_tried ?X1) (arg_min_fps (args ?C)))
               (stage3_height (last_tried ?X2) (input_h_of (video_height ?P))
                  (arg_min_height (args ?C))) None
               (Some (v_bitrate_of (target_video_bps (target ?C) (duration_s ?P)
                                      (arg_audio_bitrate (args ?C)))))
               (arg_audio_bitrate (args ?C)) (snd ?X2)"
  have "fell_through ?X1" by code_simp
  then have s1: "?X1 = (Inr (Fallthrough (carried ?X1) (last_tried ?X1)), snd ?X1)"
    by (rule fell_throughD)
  have "fell_through ?X2" by code_simp
  then have s2: "?X2 = (Inr (Fallthrough (carried ?X2) (last_tried ?X2)), snd ?X2)"
    by (rule fell_throughD)
  have "fst ?X3 = Inr (''libx264'', 900)" by code_simp
  then have enc: "?X3 = (Inr (''libx264'', 900), snd ?X3)"
    by (rule encodedD)
  have big: "\<not> 900 \<le> target ?C" by (simp add: example_ctx_def example_request_def)
  have dest: "arg_output (args ?C) \<noteq> []" "output_failure ?E = None"
    by (simp_all add: example_ctx_def example_request_def example_env_def)
  from bitrate_stage_always_returns [OF s1 s2 enc dest] big show ?thesis by auto
qed

text \<open>
  C5. In every run that returns, the attempt log lists, in the order made and with the
  parameters and the codec of the call, exactly the encoder runs that finished: none is
  missing, added or moved; its parameter pairs are an initial part of the planned sequence
  of candidates, one entry for each. When the codec recorded for an attempt is not the preferred one,
  it is the fallback codec and the attempt made exactly two encoder runs with the same
  parameters, the failed one with the preferred codec and then the one with the fallback.
\<close>

theorem attempt_log_mirrors_encodes:
  "(\<forall>out w'. search env c p w = (Inr out, w') \<longrightarrow>
       run_log (events w') = run_log (events w) @ map (attempt_call c) (attempts out)
       \<and> prefix (map (\<lambda>a. (fps a, height a)) (attempts out)) (plan c p))
   \<and> (\<forall>codec sz w'.
         encode_with_codec_fallback env c f h q vb ab w = (Inr (codec, sz), w')
           \<and> codec \<noteq> preferred_codec c \<longrightarrow>
         fallback_codec c = Some codec
         \<and> (\<exists>cmdP cmdF r m.
               ctx_cmd c (preferred_codec c) f h q vb ab = Inr cmdP
               \<and> ctx_cmd c codec f h q vb ab = Inr cmdF
               \<and> raised r = Some (ValueError m)
               \<and> ffmpeg_runs (events w')
                   = ffmpeg_runs (events w) @ [(cmdP, r), (cmdF, Completed sz)]))"
proof (intro conjI allI impI)
  fix out w'
  assume "search env c p w = (Inr out, w')"
  then show "run_log (events w') = run_log (events w) @ map (attempt_call c) (attempts out)"
    by (rule search_run_log)
next
  fix out w'
  assume "search env c p w = (Inr out, w')"
  then show "prefix (map (\<lambda>a. (fps a, height a)) (attempts out)) (plan c p)"
    by (rule search_plan)
next
  fix codec sz w'
  assume a: "encode_with_codec_fallback env c f h q vb ab w = (Inr (codec, sz), w')
               \<and> codec \<noteq> preferred_codec c"
  from ewcf_Inr [of env c f h q vb ab w codec sz w'] a
  show "fallback_codec c = Some codec" by auto
next
  fix codec sz w'
  assume a: "encode_with_codec_fallback env c f h q vb ab w = (Inr (codec, sz), w')
               \<and> codec \<noteq> preferred_codec c"
  from ewcf_Inr [of env c f h q vb ab w codec sz w'] a
  obtain cmdF cmdP r m where x: "ctx_cmd c codec f h q vb ab = Inr cmdF"
    "ctx_cmd c (preferred_codec c) f h q vb ab = Inr cmdP" "raised r = Some (ValueError m)"
    "events w' = events w @ [FfmpegRun cmdP (arg_timeout_s (args c)) r,
                             FfmpegRun cmdF (arg_timeout_s (args c)) (Completed sz)]"
    by auto
  have "ffmpeg_runs (events w') = ffmpeg_runs (events w) @ [(cmdP, r), (cmdF, Completed sz)]"
    unfolding x(4) by (simp add: ffmpeg_runs_append)
  with x show "\<exists>cmdP cmdF r m.
               ctx_cmd c (preferred_codec c) f h q vb ab = Inr cmdP
               \<and> ctx_cmd c codec f h q vb ab = Inr cmdF
               \<and> raised r = Some (ValueError m)
               \<and> ffmpeg_runs (events w')
                   = ffmpeg_runs (events w) @ [(cmdP, r), (cmdF, Completed sz)]"
    by blast
qed

theorem attempt_log_mirrors_encodes_witness:
  "(\<exists>out w'. search (example_env probe_1080p30 [CalledProcessError ''Unknown encoder'', Completed 500])
               (example_ctx example_request ''libx265'' (Some ''libx264'')) probe_1080p30 start
                 = (Inr out, w')
       \<and> run_log (events w')
           = map (attempt_call (example_ctx example_request ''libx265'' (Some ''libx264'')))
               (attempts out))
   \<and> (\<exists>w' cmdP cmdF r.
         encode_with_codec_fallback
            (example_env probe_1080p30 [CalledProcessError ''Unknown encoder'', Completed 500])
            (example_ctx example_request ''libx265'' (Some ''libx264''))
            None None (Some 28) None ''128k'' start = (Inr (''libx264'', 500), w')
       \<and> ffmpeg_runs (events w') = [(cmdP, r), (cmdF, Completed 500)])"
proof -
  let ?E = "example_env probe_1080p30 [CalledProcessError ''Unknown encoder'', Completed 500]"
  let ?C = "example_ctx example_request ''libx265'' (Some ''libx264'')"
  note inst = attempt_log_mirrors_encodes [of ?E ?C probe_1080p30 start None None "Some 28" None "''128k''"]
  have "\<not> isl (fst (search ?E ?C probe_1080p30 start))" by code_simp
  then obtain out w' where run: "search ?E ?C probe_1080p30 start = (Inr out, w')"
    by (cases "search ?E ?C probe_1080p30 start"; cases "fst (search ?E ?C probe_1080p30 start)") auto
  have st: "events start = []" by (simp add: start_def)
  from inst run have "run_log (events w') = run_log (events start) @ map (attempt_call ?C) (attempts out)"
    by blast
  then have one: "\<exists>out w'. search ?E ?C probe_1080p30 start = (Inr out, w')
       \<and> run_log (events w') = map (attempt_call ?C) (attempts out)"
    using run st by auto
  have "case encode_with_codec_fallback ?E ?C None None (Some 28) None ''128k'' start of
          (Inr (codec, sz), w2) \<Rightarrow> codec = ''libx264'' \<and> sz = 500
        | (Inl e, w2) \<Rightarrow> False"
    by code_simp
  then obtain w2 where enc: "encode_with_codec_fallback ?E ?C None None (Some 28) None ''128k'' start
                               = (Inr (''libx264'', 500), w2)"
    by (auto split: prod.splits sum.splits)
  have ne: "''libx264'' \<noteq> preferred_codec ?C" by (simp add: example_ctx_def)
  from inst enc ne obtain cmdP cmdF r where
    "ffmpeg_runs (events w2) = ffmpeg_runs (events start) @ [(cmdP, r), (cmdF, Completed 500)]"
    by blast
  then have two: "\<exists>w' cmdP cmdF r.
         encode_with_codec_fallback ?E ?C None None (Some 28) None ''128k'' start
           = (Inr (''libx264'', 500), w')
       \<and> ffmpeg_runs (events w') = [(cmdP, r), (cmdF, Completed 500)]"
    using enc st by auto
  from one two show ?thesis by (rule conjI)
qed

subsection \<open>Codec fallback\<close>




subsection \<open>Parameters of the bitrate encode\<close>

text \<open>
  C8 at a source of 5 frames per second with the floor of 8: stage 1 tries the keep entry
  alone, and the bitrate encode of stage 3 asks for 8 frames per second, above the source
  and not a candidate that stage 1 tried.
\<close>

theorem stage3_fps_above_source:
  "fps_candidates (input_fps_of (video_fps probe_5fps)) (arg_min_fps example_request) = [None]
   \<and> strategy (projr (fst (adaptive_compress_video
        (example_env probe_5fps [Completed 900, Completed 700])
        (example_request\<lparr>arg_target_bytes := Some 1\<rparr>))))
      = ''fps+scale+bitrate''
   \<and> map fps (attempts (projr (fst (adaptive_compress_video
        (example_env probe_5fps [Completed 900, Completed 700])
        (example_request\<lparr>arg_target_bytes := Some 1\<rparr>)))))
      = [None, Some 8]
   \<and> ''fps=fps=8.000000'' \<in> set (fst (last (ffmpeg_runs (events (snd (adaptive_compress_video
        (example_env probe_5fps [Completed 900, Completed 700])
        (example_request\<lparr>arg_target_bytes := Some 1\<rparr>)))))))"
  by code_simp

end
